theory Spec2Isabelle
  imports Complex_Main "HOL-Library.Word"
begin

section \<open>Numbers, strings and the easing helpers\<close>

text \<open>
  The viewer computes on JavaScript numbers. They are modelled as mathematical reals:
  every statement below is about the exact value of the expressions of
  \<^verbatim>\<open>SplatViewer.ts\<close>, not about their rounding to doubles. \<^verbatim>\<open>Number.POSITIVE_INFINITY\<close>,
  which the code stores in two time fields, is a value of its own.
\<close>

datatype js_time = Finite real | PosInfinity

fun time_ge :: "real \<Rightarrow> js_time \<Rightarrow> bool" where
  "time_ge x (Finite t) = (t \<le> x)"
| "time_ge x PosInfinity = False"

fun time_gt :: "real \<Rightarrow> js_time \<Rightarrow> bool" where
  "time_gt x (Finite t) = (t < x)"
| "time_gt x PosInfinity = False"

text \<open>
  The remainder operator \<^verbatim>\<open>a % b\<close> of JavaScript truncates the quotient towards zero, so
  the result has the sign of the dividend.
\<close>

definition js_rem :: "real \<Rightarrow> real \<Rightarrow> real" where
  "js_rem a b = a - b * of_int (if 0 \<le> a / b then \<lfloor>a / b\<rfloor> else \<lceil>a / b\<rceil>)"

text \<open>\<^verbatim>\<open>Math.round\<close> rounds half up.\<close>

definition js_round :: "real \<Rightarrow> int" where
  "js_round x = \<lfloor>x + 1 / 2\<rfloor>"

definition easeInOutCubic :: "real \<Rightarrow> real" where
  "easeInOutCubic t =
     (let x = max 0 (min 1 t)
      in if x < 0.5 then 4 * x * x * x else 1 - (- 2 * x + 2) ^ 3 / 2)"

definition smoothstep :: "real \<Rightarrow> real \<Rightarrow> real \<Rightarrow> real" where
  "smoothstep edge0 edge1 x =
     (if edge0 = edge1 then (if x < edge0 then 0 else 1)
      else let t = max 0 (min 1 ((x - edge0) / (edge1 - edge0)))
           in t * t * (3 - 2 * t))"

definition mix :: "real \<Rightarrow> real \<Rightarrow> real \<Rightarrow> real" where
  "mix a b t = (let x = max 0 (min 1 t) in a * (1 - x) + b * x)"

definition easeOutCubic :: "real \<Rightarrow> real" where
  "easeOutCubic t = (let x = max 0 (min 1 t) in 1 - (1 - x) ^ 3)"

text \<open>
  Strings are lists of 8-bit code units (the Latin-1 range of JavaScript's UTF-16 code
  units). \<^verbatim>\<open>toLowerCase\<close> maps A-Z and the accented capitals of Latin-1 to their small
  letters; \<^verbatim>\<open>trim\<close> removes the white space and line terminators of that range from both
  ends.
\<close>

definition toLowerCaseChar :: "char \<Rightarrow> char" where
  "toLowerCaseChar c =
     (let n = (of_char c :: nat)
      in if (65 \<le> n \<and> n \<le> 90) \<or> (192 \<le> n \<and> n \<le> 222 \<and> n \<noteq> 215)
         then char_of (n + 32) else c)"

definition toLowerCase :: "string \<Rightarrow> string" where
  "toLowerCase s = map toLowerCaseChar s"

definition isWhiteSpace :: "char \<Rightarrow> bool" where
  "isWhiteSpace c = ((of_char c :: nat) \<in> set [9, 10, 11, 12, 13, 32, 160])"

definition trim :: "string \<Rightarrow> string" where
  "trim s = rev (dropWhile isWhiteSpace (rev (dropWhile isWhiteSpace s)))"


section \<open>The state of the viewer\<close>

datatype AnimMode = ModeNone | Zwave | Swirl | Noise | Breath | Explode

datatype PerfLevel = High | Low

text \<open>
  The field \<^verbatim>\<open>animationMode\<close> is declared as an \<^verbatim>\<open>AnimMode\<close>, but \<^verbatim>\<open>setAnimation\<close> fills it
  from a property read on an object literal, and such a read also finds the members the
  literal inherits from \<^verbatim>\<open>Object.prototype\<close>. \<open>Inherited k\<close> is the inherited member named
  \<open>k\<close> (a function or an object, never a string).
\<close>

datatype mode_value = Mode AnimMode | Inherited string

record CustomUniformRefs =
  u_time :: real
  u_mode :: int
  u_morph :: real
  u_colorGain :: real
  u_strength :: real
  u_radius :: real

datatype bubble_kind = TextBubble | PlainBubble

text \<open>
  A floating marker. \<open>bid\<close> stands for the identity of the JavaScript object (the code
  compares markers with \<^verbatim>\<open>===\<close>), \<open>isOpen\<close> for the class \<^verbatim>\<open>is-open\<close> of its element.
  Position, velocity, colour and the scale of the marker are left to the scene: the
  tick receives the projected coordinates of every marker from its environment.
\<close>

record FloatingBubbleEntry =
  bid :: nat
  kind :: bubble_kind
  isOpen :: bool
  spawnMs :: real
  lastUpdateMs :: real
  lifeMs :: real
  revealUntilMs :: js_time
  maxAlpha :: real
  screenX :: real
  screenY :: real
  overModel :: bool
  lastOverlapCheckMs :: real

text \<open>
  \<open>hasSplatMesh\<close> says that \<^verbatim>\<open>this.viewer?.splatMesh\<close> is there; \<open>bubbleLayer\<close> that a
  layer element is set; \<open>nextBubbleId\<close> numbers the marker objects as they are created.
\<close>

record SplatViewer =
  isMobileLike :: bool
  hasSplatMesh :: bool
  customUniforms :: "CustomUniformRefs option"
  animationMode :: mode_value
  animationStartTime :: real
  pointCloudEnabled :: bool
  luminanceBridgeActive :: bool
  luminanceBridgeFrom :: real
  luminanceBridgeElapsed :: real
  scaleBridgeActive :: bool
  scaleBridgeFrom :: real
  scaleBridgeElapsed :: real
  colorGainApplied :: real
  scaleApplied :: real
  lastUniformUpdateTimeMs :: real
  sceneRadius :: real
  bubbleLayer :: bool
  bubbleMessages :: "string list"
  floatingBubbles :: "FloatingBubbleEntry list"
  nextBubbleSpawnMs :: js_time
  performanceLevel :: PerfLevel
  lastBubbleTickMs :: real
  bubblesEnabledForModel :: bool
  activeTextBubble :: "nat option"
  nextBubbleId :: nat
  loadVersion :: nat
  disposed :: bool

abbreviation (input) morphLoopSeconds :: real where "morphLoopSeconds \<equiv> 3.2"
abbreviation (input) pointCloudEnterMorph :: real where "pointCloudEnterMorph \<equiv> 0.38"
abbreviation (input) pointCloudExitMorph :: real where "pointCloudExitMorph \<equiv> 0.02"
abbreviation (input) modelRevealStartMorph :: real where "modelRevealStartMorph \<equiv> 0.34"
abbreviation (input) modelRevealStartGain :: real where "modelRevealStartGain \<equiv> 0.62"
abbreviation (input) modelRevealStartScale :: real where "modelRevealStartScale \<equiv> 0.84"
abbreviation (input) luminanceBridgeDurationSeconds :: real where "luminanceBridgeDurationSeconds \<equiv> 0.32"
abbreviation (input) scaleBridgeDurationSeconds :: real where "scaleBridgeDurationSeconds \<equiv> 0.28"
abbreviation (input) colorRisePerSecond :: real where "colorRisePerSecond \<equiv> 0.35"
abbreviation (input) colorFallPerSecond :: real where "colorFallPerSecond \<equiv> 1.8"


section \<open>The morph clock, the render-mode gate and the bridges\<close>

fun animationModeToInt :: "mode_value \<Rightarrow> int" where
  "animationModeToInt (Mode Zwave) = 1"
| "animationModeToInt (Mode Swirl) = 2"
| "animationModeToInt (Mode Noise) = 3"
| "animationModeToInt (Mode Breath) = 4"
| "animationModeToInt (Mode Explode) = 5"
| "animationModeToInt _ = 0"

definition clampDt :: "real \<Rightarrow> real \<Rightarrow> real" where
  "clampDt nowMs lastMs = min (max ((nowMs - lastMs) / 1000) 0) 0.05"

text \<open>
  Lines 502-509 of \<^verbatim>\<open>updateAnimationUniforms\<close>: the morph scalar and the dispersing flag
  of a tick, from the mode and the seconds elapsed since the animation started.
\<close>

definition morphClock :: "mode_value \<Rightarrow> real \<Rightarrow> real \<times> bool" where
  "morphClock m elapsedSeconds =
     (if m \<noteq> Mode ModeNone
      then let phase = js_rem elapsedSeconds morphLoopSeconds / morphLoopSeconds;
               dispersing = phase < 0.5;
               triangle = (if phase < 0.5 then phase * 2 else (1 - phase) * 2)
           in (easeInOutCubic triangle, dispersing)
      else (0, False))"

text \<open>Lines 511-518: the representation the gate asks for, before the reveal window.\<close>

definition gateTarget :: "SplatViewer \<Rightarrow> real \<Rightarrow> bool \<Rightarrow> bool" where
  "gateTarget s morph dispersing =
     (if animationMode s = Mode ModeNone then False
      else if dispersing \<and> pointCloudEnterMorph \<le> morph then True
      else if \<not> dispersing \<and> morph \<le> pointCloudExitMorph then False
      else pointCloudEnabled s)"

definition inModelRevealWindow :: "SplatViewer \<Rightarrow> real \<Rightarrow> bool \<Rightarrow> bool" where
  "inModelRevealWindow s morph dispersing =
     (animationMode s \<noteq> Mode ModeNone \<and> \<not> dispersing \<and> morph \<le> modelRevealStartMorph)"

definition modelRevealBlend :: "SplatViewer \<Rightarrow> real \<Rightarrow> bool \<Rightarrow> real" where
  "modelRevealBlend s morph dispersing =
     (if inModelRevealWindow s morph dispersing
      then 1 - smoothstep 0 modelRevealStartMorph morph else 0)"

text \<open>Lines 526-564: the scale target, with the multiplier of constrained devices.\<close>

definition targetScale :: "SplatViewer \<Rightarrow> real \<Rightarrow> bool \<Rightarrow> real" where
  "targetScale s morph dispersing =
     (let morphForScale = easeInOutCubic morph;
          scaleGate = smoothstep 0.03 0.18 morph;
          reassemblyFill = (if \<not> dispersing then 1 - smoothstep 0.0 0.28 morph else 0);
          targetScaleRaw =
            (if animationMode s = Mode ModeNone then 1.0
             else 1.0 + 0.22 * morphForScale * scaleGate + 0.26 * reassemblyFill);
          handoffToModel =
            (if animationMode s = Mode ModeNone then 1
             else 1 - smoothstep (pointCloudExitMorph + 0.02) (pointCloudExitMorph + 0.14) morph);
          targetScaleBase = mix targetScaleRaw 1.0 handoffToModel
      in if isMobileLike s \<and> gateTarget s morph dispersing
         then targetScaleBase * 1.18 else targetScaleBase)"

text \<open>Lines 534-553 and 565: the colour gain target.\<close>

definition colorGainTarget :: "SplatViewer \<Rightarrow> real \<Rightarrow> bool \<Rightarrow> real" where
  "colorGainTarget s morph dispersing =
     (let pointCloudBlend =
            (if animationMode s \<noteq> Mode ModeNone
             then if dispersing
                  then smoothstep (pointCloudEnterMorph - 0.14) (pointCloudEnterMorph + 0.04) morph
                  else smoothstep 0.0 0.16 morph
             else 0);
          convergence = 1 - smoothstep 0.0 0.24 morph;
          modelGain = 1.0 - 0.08 * convergence;
          particleGain = 1.2 + 0.14 * convergence
      in if animationMode s = Mode ModeNone then 1.0
         else mix modelGain particleGain pointCloudBlend)"

text \<open>
  Lines 567-592: with a mesh, the reveal window and the late exit override the target,
  a switch from point cloud to model arms both bridges, and the flag follows the target.
\<close>

definition switchRepresentation :: "SplatViewer \<Rightarrow> real \<Rightarrow> bool \<Rightarrow> SplatViewer" where
  "switchRepresentation s morph dispersing =
     (if hasSplatMesh s
      then let targetPointCloud =
                 (if inModelRevealWindow s morph dispersing then False
                  else if \<not> dispersing \<and> morph \<le> pointCloudExitMorph + 0.03 then False
                  else gateTarget s morph dispersing);
               switchingFromPointCloudToModel = (pointCloudEnabled s \<and> \<not> targetPointCloud);
               s1 = (if switchingFromPointCloudToModel
                     then s\<lparr>luminanceBridgeActive := True,
                            luminanceBridgeFrom := colorGainApplied s,
                            luminanceBridgeElapsed := 0,
                            scaleBridgeActive := True,
                            scaleBridgeFrom := min (scaleApplied s) 0.9,
                            scaleBridgeElapsed := 0\<rparr>
                     else s)
           in if pointCloudEnabled s1 \<noteq> targetPointCloud
              then s1\<lparr>pointCloudEnabled := targetPointCloud\<rparr> else s1
      else s)"

text \<open>Lines 594-608: the scale wanted this tick, and the scale bridge advanced.\<close>

definition scaleBridgeStep ::
    "SplatViewer \<Rightarrow> real \<Rightarrow> real \<Rightarrow> bool \<Rightarrow> real \<Rightarrow> real \<times> SplatViewer" where
  "scaleBridgeStep s dt morph dispersing target =
     (if inModelRevealWindow s morph dispersing
      then (mix modelRevealStartScale 1.0 (modelRevealBlend s morph dispersing),
            s\<lparr>scaleBridgeActive := False\<rparr>)
      else if animationMode s = Mode ModeNone
      then (1.0, s\<lparr>scaleBridgeActive := False\<rparr>)
      else if scaleBridgeActive s
      then let s1 = s\<lparr>scaleBridgeElapsed := scaleBridgeElapsed s + dt\<rparr>;
               pScale = smoothstep 0 scaleBridgeDurationSeconds (scaleBridgeElapsed s1)
           in (mix (scaleBridgeFrom s1) 1.0 pScale,
               if 1 \<le> pScale then s1\<lparr>scaleBridgeActive := False\<rparr> else s1)
      else (target, s))"

text \<open>Lines 610-627: the colour gain wanted this tick, and the luminance bridge advanced.\<close>

definition luminanceBridgeStep ::
    "SplatViewer \<Rightarrow> real \<Rightarrow> real \<Rightarrow> bool \<Rightarrow> real \<Rightarrow> real \<times> SplatViewer" where
  "luminanceBridgeStep s dt morph dispersing target =
     (if inModelRevealWindow s morph dispersing
      then (mix modelRevealStartGain 1.0 (easeOutCubic (modelRevealBlend s morph dispersing)),
            s\<lparr>luminanceBridgeActive := False\<rparr>)
      else if animationMode s = Mode ModeNone
      then (1.0, s\<lparr>luminanceBridgeActive := False\<rparr>)
      else if luminanceBridgeActive s
      then let s1 = s\<lparr>luminanceBridgeElapsed := luminanceBridgeElapsed s + dt\<rparr>;
               p = easeOutCubic
                     (smoothstep 0 luminanceBridgeDurationSeconds (luminanceBridgeElapsed s1))
           in (mix (luminanceBridgeFrom s1) 1.0 p,
               if 1 \<le> p then s1\<lparr>luminanceBridgeActive := False\<rparr> else s1)
      else (target, s))"

text \<open>Lines 629-642: exponential following, and the rate limit on the colour gain.\<close>

definition followTargets :: "SplatViewer \<Rightarrow> real \<Rightarrow> real \<Rightarrow> real \<Rightarrow> SplatViewer" where
  "followTargets s dt desiredColorGain desiredScale =
     (let colorFollow = 1 - exp (- dt / 0.18);
          scaleFollow = 1 - exp (- dt / 0.1);
          colorFollowTarget =
            colorGainApplied s + (desiredColorGain - colorGainApplied s) * colorFollow;
          colorStep = colorFollowTarget - colorGainApplied s;
          maxRiseStep = colorRisePerSecond * dt;
          maxFallStep = colorFallPerSecond * dt;
          gain = (if maxRiseStep < colorStep then colorGainApplied s + maxRiseStep
                  else if colorStep < - maxFallStep then colorGainApplied s - maxFallStep
                  else colorFollowTarget)
      in s\<lparr>colorGainApplied := gain,
           scaleApplied := scaleApplied s + (desiredScale - scaleApplied s) * scaleFollow\<rparr>)"

text \<open>
  \<^verbatim>\<open>updateAnimationUniforms\<close>, run at the clock reading \<open>nowMs\<close>. Without the uniforms of a
  patched material it returns at once.
\<close>

definition updateAnimationUniforms :: "real \<Rightarrow> SplatViewer \<Rightarrow> SplatViewer" where
  "updateAnimationUniforms nowMs s =
     (case customUniforms s of
        None \<Rightarrow> s
      | Some u \<Rightarrow>
          let elapsedSeconds = (nowMs - animationStartTime s) / 1000;
              dt = clampDt nowMs (lastUniformUpdateTimeMs s);
              s0 = s\<lparr>lastUniformUpdateTimeMs := nowMs\<rparr>;
              (morph, dispersing) = morphClock (animationMode s0) elapsedSeconds;
              scaleWanted = targetScale s0 morph dispersing;
              gainWanted = colorGainTarget s0 morph dispersing;
              s1 = switchRepresentation s0 morph dispersing;
              (desiredScale, s2) = scaleBridgeStep s1 dt morph dispersing scaleWanted;
              (desiredColorGain, s3) = luminanceBridgeStep s2 dt morph dispersing gainWanted;
              s4 = followTargets s3 dt desiredColorGain desiredScale
          in s4\<lparr>customUniforms := Some
                 \<lparr>u_time = elapsedSeconds,
                  u_mode = animationModeToInt (animationMode s4),
                  u_morph = morph,
                  u_colorGain = colorGainApplied s4,
                  u_strength = (if animationMode s4 = Mode ModeNone then 0 else 0.35 + 0.65 * morph),
                  u_radius = max (sceneRadius s4) 0.25\<rparr>\<rparr>)"

definition applyAnimationStyle :: "bool \<Rightarrow> SplatViewer \<Rightarrow> SplatViewer" where
  "applyAnimationStyle resetForTransition s =
     (if \<not> hasSplatMesh s then s
      else if animationMode s = Mode ModeNone \<or> resetForTransition
      then s\<lparr>pointCloudEnabled := False\<rparr> else s)"


section \<open>Choosing the animation\<close>

text \<open>The object literal \<^verbatim>\<open>map\<close> of \<^verbatim>\<open>setAnimation\<close>, as its own properties.\<close>

definition animationModeTable :: "(string \<times> AnimMode) list" where
  "animationModeTable =
     [(''none'', ModeNone), (''off'', ModeNone),
      (''z wave'', Zwave), (''z_wave'', Zwave), (''z-wave'', Zwave), (''zwave'', Zwave),
      (''swirl'', Swirl), (''noise'', Noise),
      (''breath'', Breath), (''breathe'', Breath),
      (''explode'', Explode)]"

text \<open>
  The names of the members of \<^verbatim>\<open>Object.prototype\<close>, which every object literal inherits.
  Each of them is a function or an object, so each is truthy.
\<close>

definition objectPrototypeKeys :: "string list" where
  "objectPrototypeKeys =
     [''constructor'', ''__defineGetter__'', ''__defineSetter__'', ''hasOwnProperty'',
      ''__lookupGetter__'', ''__lookupSetter__'', ''isPrototypeOf'',
      ''propertyIsEnumerable'', ''toString'', ''valueOf'', ''__proto__'',
      ''toLocaleString'']"

text \<open>
  \<^verbatim>\<open>map[normalized] || "none"\<close>: the own property if there is one, else the inherited
  member if there is one, else (the read gives \<^verbatim>\<open>undefined\<close>) the fallback.
\<close>

definition lookupMode :: "string \<Rightarrow> mode_value" where
  "lookupMode normalized =
     (case map_of animationModeTable normalized of
        Some m \<Rightarrow> Mode m
      | None \<Rightarrow> if normalized \<in> set objectPrototypeKeys
                then Inherited normalized else Mode ModeNone)"

text \<open>\<^verbatim>\<open>String(mode || "none").toLowerCase().trim()\<close>; the empty string is falsy.\<close>

definition normalizeModeName :: "string \<Rightarrow> string" where
  "normalizeModeName mode = trim (toLowerCase (if mode = [] then ''none'' else mode))"

text \<open>
  \<^verbatim>\<open>setAnimation\<close> reads the clock three times: for the start time, for the time of the
  last uniform update, and inside \<^verbatim>\<open>updateAnimationUniforms\<close>.
\<close>

definition setAnimation ::
    "string \<Rightarrow> real \<Rightarrow> real \<Rightarrow> real \<Rightarrow> SplatViewer \<Rightarrow> SplatViewer" where
  "setAnimation mode now1 now2 now3 s =
     (let s1 = s\<lparr>animationMode := lookupMode (normalizeModeName mode),
                  animationStartTime := now1,
                  lastUniformUpdateTimeMs := now2\<rparr>;
          s2 = (if animationMode s1 = Mode ModeNone
                then s1\<lparr>colorGainApplied := 1, scaleApplied := 1,
                        luminanceBridgeActive := False, scaleBridgeActive := False\<rparr>
                else s1)
      in updateAnimationUniforms now3 (applyAnimationStyle True s2))"


section \<open>The displacement kernel\<close>

text \<open>
  The GLSL that \<^verbatim>\<open>installCustomAnimationKernel\<close> splices into the vertex shader, as a
  function of the uniforms, the scene centre, the index of the splat and its base centre.
  GLSL's \<^verbatim>\<open>mix\<close> does not clamp its weight, unlike the \<^verbatim>\<open>mix\<close> of the class; its
  \<^verbatim>\<open>normalize\<close> of the zero vector is undefined (here: the zero vector).
\<close>

type_synonym vec3 = "real \<times> real \<times> real"

definition vadd :: "vec3 \<Rightarrow> vec3 \<Rightarrow> vec3" where
  "vadd a b = (case a of (ax, ay, az) \<Rightarrow> case b of (bx, by, bz) \<Rightarrow> (ax + bx, ay + by, az + bz))"

definition vsub :: "vec3 \<Rightarrow> vec3 \<Rightarrow> vec3" where
  "vsub a b = (case a of (ax, ay, az) \<Rightarrow> case b of (bx, by, bz) \<Rightarrow> (ax - bx, ay - by, az - bz))"

definition vscale :: "vec3 \<Rightarrow> real \<Rightarrow> vec3" where
  "vscale a k = (case a of (ax, ay, az) \<Rightarrow> (ax * k, ay * k, az * k))"

definition vdot :: "vec3 \<Rightarrow> vec3 \<Rightarrow> real" where
  "vdot a b = (case a of (ax, ay, az) \<Rightarrow> case b of (bx, by, bz) \<Rightarrow> ax * bx + ay * by + az * bz)"

definition vlength :: "vec3 \<Rightarrow> real" where
  "vlength a = sqrt (vdot a a)"

definition normalizeVec :: "vec3 \<Rightarrow> vec3" where
  "normalizeVec a = vscale a (1 / vlength a)"

definition fract :: "real \<Rightarrow> real" where
  "fract x = x - of_int \<lfloor>x\<rfloor>"

definition glsl_clamp :: "real \<Rightarrow> real \<Rightarrow> real \<Rightarrow> real" where
  "glsl_clamp x lo hi = min (max x lo) hi"

definition glsl_smoothstep :: "real \<Rightarrow> real \<Rightarrow> real \<Rightarrow> real" where
  "glsl_smoothstep edge0 edge1 x =
     (let t = glsl_clamp ((x - edge0) / (edge1 - edge0)) 0 1 in t * t * (3 - 2 * t))"

definition glsl_mix :: "real \<Rightarrow> real \<Rightarrow> real \<Rightarrow> real" where
  "glsl_mix a b t = a * (1 - t) + b * t"

definition glsl_atan :: "real \<Rightarrow> real \<Rightarrow> real" where
  "glsl_atan y x = Arg (Complex x y)"

definition kernelSeed :: "nat \<Rightarrow> real" where
  "kernelSeed splatIndex = fract (sin (real splatIndex * 12.9898) * 43758.5453)"

definition kernelMorph :: "CustomUniformRefs \<Rightarrow> real" where
  "kernelMorph u = glsl_clamp (u_morph u) 0 1"

definition kernelRadiusNorm :: "CustomUniformRefs \<Rightarrow> vec3 \<Rightarrow> real" where
  "kernelRadiusNorm u fromCenter =
     glsl_clamp (vlength fromCenter / max (u_radius u) 0.0001) 0 1"

definition kernelPhase :: "CustomUniformRefs \<Rightarrow> nat \<Rightarrow> real" where
  "kernelPhase u splatIndex = u_time u * 1.2 + kernelSeed splatIndex * 6.2831853"

definition kernelStrength :: "CustomUniformRefs \<Rightarrow> real" where
  "kernelStrength u =
     u_strength u * kernelMorph u * glsl_smoothstep 0.12 0.35 (kernelMorph u)"

text \<open>The centre after the breakup offset, which every mode but none applies.\<close>

definition breakupCenter :: "CustomUniformRefs \<Rightarrow> vec3 \<Rightarrow> nat \<Rightarrow> vec3 \<Rightarrow> vec3" where
  "breakupCenter u sceneCenter splatIndex baseCenter =
     (let seed = kernelSeed splatIndex;
          fromCenter = vsub baseCenter sceneCenter;
          radiusNorm = kernelRadiusNorm u fromCenter;
          grainDir = normalizeVec (vadd (sin (seed * 31.4) - 0.5,
                                      cos (seed * 47.1) - 0.5,
                                      sin (seed * 59.9) - 0.5) (0.0001, 0.0001, 0.0001));
          breakup = glsl_smoothstep 0.05 0.85 (kernelMorph u)
      in vadd baseCenter
           (vscale grainDir (breakup * glsl_mix 0.01 0.09 radiusNorm * u_radius u)))"

text \<open>The term the explode mode adds to the centre.\<close>

definition explodeTerm :: "CustomUniformRefs \<Rightarrow> vec3 \<Rightarrow> nat \<Rightarrow> vec3 \<Rightarrow> vec3" where
  "explodeTerm u sceneCenter splatIndex baseCenter =
     (let fromCenter = vsub baseCenter sceneCenter;
          burst = (max (sin (kernelPhase u splatIndex * 0.8)) 0.0) ^ 2;
          explodeDir = normalizeVec (vadd fromCenter (0.0001, 0.0001, 0.0001))
      in vscale explodeDir (burst * kernelStrength u * 0.28 * u_radius u))"

definition animatedCenter :: "CustomUniformRefs \<Rightarrow> vec3 \<Rightarrow> nat \<Rightarrow> vec3 \<Rightarrow> vec3" where
  "animatedCenter u sceneCenter splatIndex baseCenter =
     (let fromCenter = vsub baseCenter sceneCenter;
          radiusNorm = kernelRadiusNorm u fromCenter;
          phase = kernelPhase u splatIndex;
          strength = kernelStrength u;
          a = breakupCenter u sceneCenter splatIndex baseCenter
      in case a of (ax, ay, az) \<Rightarrow> case fromCenter of (fx, fy, fz) \<Rightarrow>
         case sceneCenter of (cx, cy, cz) \<Rightarrow>
         if u_mode u = 1
         then let wave = sin (phase + vdot fromCenter (0.11, 0.07, 0.13) * 3.0)
              in (ax,
                  ay + cos (phase * 0.8 + radiusNorm * 5.0) * strength * 0.02 * u_radius u,
                  az + wave * strength * glsl_mix 0.03 0.16 radiusNorm * u_radius u)
         else if u_mode u = 2
         then let radial = sqrt (fx * fx + fz * fz);
                  angle = glsl_atan fz fx + sin (phase + fy * 0.08) * 1.15 * strength
              in (cx + cos angle * radial,
                  ay + sin (phase * 0.9 + radial * 0.06) * 0.03 * strength * u_radius u,
                  cz + sin angle * radial)
         else if u_mode u = 3
         then let wobble =
                    (sin (phase * 2.1 + fy * 0.13) + cos (phase * 0.7 + fz * 0.09),
                     cos (phase * 1.7 + fx * 0.11) + sin (phase * 0.9 + fz * 0.05),
                     sin (phase * 1.3 + fx * 0.07) + cos (phase * 1.6 + fy * 0.12))
              in vadd a (vscale wobble (0.03 * strength * u_radius u))
         else if u_mode u = 4
         then let scalePulse = 1.0 + sin (phase * 0.9) * 0.12 * strength
              in vadd sceneCenter (vscale fromCenter scalePulse)
         else if u_mode u = 5
         then vadd a (explodeTerm u sceneCenter splatIndex baseCenter)
         else a)"

definition customAnimationKernel ::
    "CustomUniformRefs \<Rightarrow> vec3 \<Rightarrow> nat \<Rightarrow> vec3 \<Rightarrow> vec3" where
  "customAnimationKernel u sceneCenter splatIndex baseCenter =
     (if 0 < u_mode u
      then let morph = kernelMorph u;
               animated = animatedCenter u sceneCenter splatIndex baseCenter
           in vadd (vscale baseCenter (1 - morph)) (vscale animated morph)
      else baseCenter)"


section \<open>The occlusion probe\<close>

text \<open>
  A read of one pixel of the drawing buffer either throws or fills the sample buffer
  with the four bytes of the pixel. A context is absent (\<open>None\<close>) when the renderer
  gives none or when it has no \<^verbatim>\<open>readPixels\<close> function.
\<close>

datatype read_result = Throws | Pixel "8 word" "8 word" "8 word" "8 word"

record gl_context =
  drawingBufferWidth :: int
  drawingBufferHeight :: int
  readPixels :: "int \<Rightarrow> int \<Rightarrow> read_result"

abbreviation (input) maxFloatingBubbles :: nat where "maxFloatingBubbles \<equiv> 18"
abbreviation (input) mobileMaxFloatingBubbles :: nat where "mobileMaxFloatingBubbles \<equiv> 11"
abbreviation (input) lowMobileMaxFloatingBubbles :: nat where "lowMobileMaxFloatingBubbles \<equiv> 7"
abbreviation (input) lowDesktopMaxFloatingBubbles :: nat where "lowDesktopMaxFloatingBubbles \<equiv> 12"
abbreviation (input) bubbleLifeMinMs :: real where "bubbleLifeMinMs \<equiv> 3400"
abbreviation (input) bubbleLifeMaxMs :: real where "bubbleLifeMaxMs \<equiv> 5600"
abbreviation (input) bubbleSpawnMinGapMs :: real where "bubbleSpawnMinGapMs \<equiv> 230"
abbreviation (input) bubbleSpawnMaxGapMs :: real where "bubbleSpawnMaxGapMs \<equiv> 520"
abbreviation (input) textBubbleSpawnProbability :: real where "textBubbleSpawnProbability \<equiv> 0.42"
abbreviation (input) maxTextBubbles :: nat where "maxTextBubbles \<equiv> 6"
abbreviation (input) edgeDisappearMarginPx :: real where "edgeDisappearMarginPx \<equiv> 56"
abbreviation (input) bubbleNoOverlapSampleRadiusPx :: real where "bubbleNoOverlapSampleRadiusPx \<equiv> 14"
abbreviation (input) bubbleOverlapCheckIntervalDesktopMs :: real where
  "bubbleOverlapCheckIntervalDesktopMs \<equiv> 36"
abbreviation (input) bubbleOverlapCheckIntervalMobileMs :: real where
  "bubbleOverlapCheckIntervalMobileMs \<equiv> 120"
abbreviation (input) lowBubbleTickIntervalMs :: real where "lowBubbleTickIntervalMs \<equiv> 28"

definition readRenderAlpha :: "gl_context \<Rightarrow> real \<Rightarrow> real \<Rightarrow> 8 word" where
  "readRenderAlpha gl sx sy =
     (let drawWidth = drawingBufferWidth gl;
          drawHeight = drawingBufferHeight gl
      in if drawWidth < 2 \<or> drawHeight < 2 then 0
         else let clampedX = max 0 (min (drawWidth - 1) (js_round sx));
                  clampedYTopLeft = max 0 (min (drawHeight - 1) (js_round sy));
                  clampedYBottomLeft = drawHeight - 1 - clampedYTopLeft
              in case readPixels gl clampedX clampedYBottomLeft of
                   Throws \<Rightarrow> 0
                 | Pixel r g b a \<Rightarrow> a)"

definition sampleOffsets :: "PerfLevel \<Rightarrow> bool \<Rightarrow> real \<Rightarrow> (real \<times> real) list" where
  "sampleOffsets level mobile r =
     (if level = Low \<or> mobile
      then [(0, 0), (r, 0), (- r, 0), (0, r), (0, - r)]
      else [(0, 0), (r, 0), (- r, 0), (0, r), (0, - r),
            (r * 0.72, r * 0.72), (r * 0.72, - r * 0.72),
            (- r * 0.72, r * 0.72), (- r * 0.72, - r * 0.72)])"

text \<open>The sampling loop: it returns at the first sample whose alpha exceeds 14.\<close>

fun anySampleCovered :: "gl_context \<Rightarrow> real \<Rightarrow> real \<Rightarrow> (real \<times> real) list \<Rightarrow> bool" where
  "anySampleCovered gl baseX baseY [] = False"
| "anySampleCovered gl baseX baseY ((dx, dy) # offsets) =
     (if 14 < readRenderAlpha gl (baseX + dx) (baseY + dy) then True
      else anySampleCovered gl baseX baseY offsets)"

definition isModelPixelCovered ::
    "gl_context option \<Rightarrow> PerfLevel \<Rightarrow> bool \<Rightarrow> real \<Rightarrow> real \<Rightarrow> real \<Rightarrow> real \<Rightarrow> real \<Rightarrow> bool" where
  "isModelPixelCovered glOpt level mobile canvasWidth canvasHeight sx sy sampleRadiusPx =
     (case glOpt of
        None \<Rightarrow> False
      | Some gl \<Rightarrow>
          let drawWidth = drawingBufferWidth gl;
              drawHeight = drawingBufferHeight gl
          in if drawWidth < 2 \<or> drawHeight < 2 then False
             else let clientWidth = max canvasWidth 1;
                      clientHeight = max canvasHeight 1;
                      baseX = (sx / clientWidth) * of_int drawWidth;
                      baseY = (sy / clientHeight) * of_int drawHeight;
                      r = max 1 (sampleRadiusPx * (of_int drawWidth / clientWidth))
                  in anySampleCovered gl baseX baseY (sampleOffsets level mobile r))"


section \<open>The floating markers\<close>

definition getActiveMaxFloatingBubbles :: "SplatViewer \<Rightarrow> nat" where
  "getActiveMaxFloatingBubbles s =
     (if performanceLevel s = Low
      then (if isMobileLike s then lowMobileMaxFloatingBubbles else lowDesktopMaxFloatingBubbles)
      else (if isMobileLike s then mobileMaxFloatingBubbles else maxFloatingBubbles))"

definition getActiveNoOverlapSampleRadiusPx :: "SplatViewer \<Rightarrow> real" where
  "getActiveNoOverlapSampleRadiusPx s =
     (if performanceLevel s = Low
      then (if isMobileLike s then max 7 (bubbleNoOverlapSampleRadiusPx - 6)
            else max 8 (bubbleNoOverlapSampleRadiusPx - 4))
      else (if isMobileLike s then max 8 (bubbleNoOverlapSampleRadiusPx - 4)
            else bubbleNoOverlapSampleRadiusPx))"

text \<open>Lines 1027-1031 of \<^verbatim>\<open>updateFloatingBubbles\<close>: the interval between two probes.\<close>

definition activeOverlapCheckInterval :: "SplatViewer \<Rightarrow> real" where
  "activeOverlapCheckInterval s =
     (let overlapCheckInterval =
            (if isMobileLike s then bubbleOverlapCheckIntervalMobileMs
             else bubbleOverlapCheckIntervalDesktopMs)
      in if performanceLevel s = Low then overlapCheckInterval * 1.9 else overlapCheckInterval)"

text \<open>
  What one call of \<^verbatim>\<open>updateFloatingBubbles\<close> takes from outside the class: the clock, the
  size of the canvas, the drawing context, the normalized device coordinates of each
  marker after its motion step, and the draws of \<^verbatim>\<open>Math.random\<close> that decide the kind and
  the life of a new marker and the gap to the next spawn. The coordinates stand for the
  force integration and the camera: whatever is proved for every \<open>f_projection\<close> holds
  for the positions the motion step computes.
\<close>

record frame =
  f_nowMs :: real
  f_canvasWidth :: real
  f_canvasHeight :: real
  f_gl :: "gl_context option"
  f_projection :: "nat \<Rightarrow> vec3"
  f_rndKind :: real
  f_rndLife :: real
  f_rndGap :: real

definition resetFloatingBubbles :: "bool \<Rightarrow> real \<Rightarrow> SplatViewer \<Rightarrow> SplatViewer" where
  "resetFloatingBubbles scheduleNext now s =
     s\<lparr>activeTextBubble := None,
       floatingBubbles := [],
       nextBubbleSpawnMs :=
         (if scheduleNext \<and> bubbleLayer s then Finite (now + 320) else PosInfinity)\<rparr>"

definition scheduleNextBubble :: "real \<Rightarrow> real \<Rightarrow> SplatViewer \<Rightarrow> SplatViewer" where
  "scheduleNextBubble now rnd s =
     (let perfGapFactor = (if performanceLevel s = Low then 1.28 else 1);
          mobileGapFactor = (if isMobileLike s then 1.2 else 1);
          minGap = bubbleSpawnMinGapMs * mobileGapFactor * perfGapFactor;
          maxGap = bubbleSpawnMaxGapMs * (if isMobileLike s then 1.3 else 1) * perfGapFactor;
          gap = minGap + rnd * max (maxGap - minGap) 1
      in s\<lparr>nextBubbleSpawnMs := Finite (now + gap)\<rparr>)"

text \<open>
  \<^verbatim>\<open>dissipateBubble\<close>: the marker is closed and its spawn time moved back so that its life
  is over; if it was the active one, no marker is active any more. The marker is named
  by its identity; one that has left the list is an object nothing reads again.
\<close>

definition dissipateBubble :: "nat \<Rightarrow> real \<Rightarrow> SplatViewer \<Rightarrow> SplatViewer" where
  "dissipateBubble b now s =
     s\<lparr>floatingBubbles :=
         map (\<lambda>e. if bid e = b then e\<lparr>isOpen := False, spawnMs := now - lifeMs e - 1\<rparr> else e)
           (floatingBubbles s),
       activeTextBubble := (if activeTextBubble s = Some b then None else activeTextBubble s)\<rparr>"

definition dismissActiveTextBubble ::
    "real \<Rightarrow> real \<Rightarrow> real \<Rightarrow> SplatViewer \<Rightarrow> SplatViewer" where
  "dismissActiveTextBubble now1 now2 rnd s =
     (case activeTextBubble s of
        None \<Rightarrow> s
      | Some active \<Rightarrow>
          let s1 = (dissipateBubble active now1 s)\<lparr>activeTextBubble := None\<rparr>
          in if bubbleLayer s1 \<and> bubblesEnabledForModel s1
             then scheduleNextBubble now2 rnd s1 else s1)"

text \<open>
  \<^verbatim>\<open>activateTextBubble\<close> in the order of its statements: the marker that was active is
  dissipated; then the clicked marker becomes the active one, its reveal is held open;
  then every other marker of the list is dissipated and spawning is suspended.
\<close>

definition dissipatePrevious :: "nat \<Rightarrow> real \<Rightarrow> SplatViewer \<Rightarrow> SplatViewer" where
  "dissipatePrevious b now s =
     (case activeTextBubble s of
        None \<Rightarrow> s
      | Some active \<Rightarrow>
          if active \<noteq> b then (dissipateBubble active now s)\<lparr>activeTextBubble := None\<rparr>
          else s)"

definition makeActive :: "nat \<Rightarrow> SplatViewer \<Rightarrow> SplatViewer" where
  "makeActive b s =
     s\<lparr>activeTextBubble := Some b,
       floatingBubbles :=
         map (\<lambda>e. if bid e = b then e\<lparr>revealUntilMs := PosInfinity, isOpen := True\<rparr> else e)
           (floatingBubbles s)\<rparr>"

definition dissipateOthers :: "nat \<Rightarrow> real \<Rightarrow> SplatViewer \<Rightarrow> SplatViewer" where
  "dissipateOthers b now s =
     foldl (\<lambda>st other. if other \<noteq> b then dissipateBubble other now st else st) s
       (map bid (floatingBubbles s))"

definition activateTextBubble :: "nat \<Rightarrow> real \<Rightarrow> SplatViewer \<Rightarrow> SplatViewer" where
  "activateTextBubble b now s =
     (dissipateOthers b now (makeActive b (dissipatePrevious b now s)))
       \<lparr>nextBubbleSpawnMs := PosInfinity\<rparr>"

text \<open>
  \<^verbatim>\<open>spawnFloatingBubble\<close>, without the placement and the colour of the marker: the kind
  and the life of the new marker, its place at the end of the list, and the eviction of
  the oldest marker when the list has grown past the capacity.
\<close>

definition spawnFloatingBubble :: "frame \<Rightarrow> SplatViewer \<Rightarrow> SplatViewer" where
  "spawnFloatingBubble f s =
     (if \<not> bubbleLayer s then s
      else let activeTextCount = length (filter (\<lambda>e. kind e = TextBubble) (floatingBubbles s));
               canSpawnText = (bubbleMessages s \<noteq> [] \<and> activeTextCount < maxTextBubbles
                               \<and> f_rndKind f < textBubbleSpawnProbability);
               bubble = \<lparr>bid = nextBubbleId s,
                         kind = (if canSpawnText then TextBubble else PlainBubble),
                         isOpen = False,
                         spawnMs = f_nowMs f,
                         lastUpdateMs = f_nowMs f,
                         lifeMs = bubbleLifeMinMs + f_rndLife f * (bubbleLifeMaxMs - bubbleLifeMinMs),
                         revealUntilMs = Finite 0,
                         maxAlpha = 0.56,
                         screenX = f_canvasWidth f * 0.5,
                         screenY = f_canvasHeight f * 0.5,
                         overModel = False,
                         lastOverlapCheckMs = 0\<rparr>;
               s1 = s\<lparr>floatingBubbles := floatingBubbles s @ [bubble],
                      nextBubbleId := Suc (nextBubbleId s)\<rparr>
           in if getActiveMaxFloatingBubbles s1 < length (floatingBubbles s1)
              then s1\<lparr>floatingBubbles := tl (floatingBubbles s1)\<rparr> else s1)"

text \<open>
  The body of the loop of \<^verbatim>\<open>updateFloatingBubbles\<close> for one marker, without its motion:
  \<open>None\<close> when the marker is removed from the list. A marker whose life is over is
  removed unless it is the active one. A marker in the viewport with some opacity is
  probed when the interval has passed since its last probe; otherwise it keeps the
  cached \<open>overModel\<close>. The last statement of the body, which closes a marker whose reveal
  time has passed, is skipped when the marker is hidden by the model or by the edge fade.
\<close>

definition closeWhenDue :: "real \<Rightarrow> SplatViewer \<Rightarrow> FloatingBubbleEntry \<Rightarrow> FloatingBubbleEntry" where
  "closeWhenDue now s e =
     (if activeTextBubble s \<noteq> Some (bid e) \<and> time_gt now (revealUntilMs e)
      then e\<lparr>isOpen := False\<rparr> else e)"

text \<open>Lines 1027-1035: the throttled probe of one marker at its pixel.\<close>

definition probeWhenDue ::
    "frame \<Rightarrow> SplatViewer \<Rightarrow> real \<Rightarrow> real \<Rightarrow> FloatingBubbleEntry \<Rightarrow> FloatingBubbleEntry" where
  "probeWhenDue f s px py e =
     (if activeOverlapCheckInterval s \<le> f_nowMs f - lastOverlapCheckMs e
      then e\<lparr>overModel :=
               isModelPixelCovered (f_gl f) (performanceLevel s) (isMobileLike s)
                 (f_canvasWidth f) (f_canvasHeight f) px py (getActiveNoOverlapSampleRadiusPx s),
             lastOverlapCheckMs := f_nowMs f\<rparr>
      else e)"

text \<open>Lines 1023-1056: a marker in the viewport with some opacity.\<close>

definition showBubble ::
    "frame \<Rightarrow> SplatViewer \<Rightarrow> real \<Rightarrow> real \<Rightarrow> real \<Rightarrow> FloatingBubbleEntry \<Rightarrow> FloatingBubbleEntry" where
  "showBubble f s alpha x y e =
     (let width = max (f_canvasWidth f) 1;
          height = max (f_canvasHeight f) 1;
          px = (x * 0.5 + 0.5) * width;
          py = (- y * 0.5 + 0.5) * height;
          e2 = e\<lparr>screenX := px, screenY := py\<rparr>;
          e3 = probeWhenDue f s px py e2;
          edgeDistance = min (min px (width - px)) (min py (height - py));
          edgeFade = smoothstep edgeDisappearMarginPx (edgeDisappearMarginPx + 36) edgeDistance;
          finalAlpha = alpha * edgeFade
      in if overModel e3 \<or> finalAlpha \<le> 0.02 then e3
         else closeWhenDue (f_nowMs f) s e3)"

definition updateBubble :: "frame \<Rightarrow> SplatViewer \<Rightarrow> FloatingBubbleEntry \<Rightarrow> FloatingBubbleEntry option" where
  "updateBubble f s e =
     (let ageMs = f_nowMs f - spawnMs e;
          lifeRatio = ageMs / lifeMs e
      in if 1 \<le> lifeRatio \<and> activeTextBubble s \<noteq> Some (bid e) then None
         else let e1 = e\<lparr>lastUpdateMs := f_nowMs f\<rparr>;
                  alpha = maxAlpha e1 * smoothstep 0 0.78 lifeRatio
              in case f_projection f (bid e) of (x, y, z) \<Rightarrow>
                 let inViewport = (- 1 < z \<and> z < 1 \<and> - 1.2 < x \<and> x < 1.2 \<and> - 1.2 < y \<and> y < 1.2)
                 in if \<not> inViewport \<or> alpha \<le> 0.02 then Some (closeWhenDue (f_nowMs f) s e1)
                    else Some (showBubble f s alpha x y e1))"

definition updateFloatingBubbles :: "frame \<Rightarrow> SplatViewer \<Rightarrow> SplatViewer" where
  "updateFloatingBubbles f s =
     (if \<not> bubbleLayer s \<or> \<not> bubblesEnabledForModel s then s
      else if performanceLevel s = Low \<and> f_nowMs f - lastBubbleTickMs s < lowBubbleTickIntervalMs
      then s
      else let s1 = s\<lparr>lastBubbleTickMs := f_nowMs f\<rparr>;
               s2 = (if activeTextBubble s1 = None
                        \<and> length (floatingBubbles s1) < getActiveMaxFloatingBubbles s1
                        \<and> time_ge (f_nowMs f) (nextBubbleSpawnMs s1)
                     then scheduleNextBubble (f_nowMs f) (f_rndGap f) (spawnFloatingBubble f s1)
                     else s1)
           in if floatingBubbles s2 = [] then s2
              else s2\<lparr>floatingBubbles := List.map_filter (updateBubble f s2) (floatingBubbles s2)\<rparr>)"

text \<open>The loop of \<^verbatim>\<open>setPerformanceLevel\<close>: the oldest markers leave while the list is too long.\<close>

fun shiftWhileOver :: "nat \<Rightarrow> 'a list \<Rightarrow> 'a list" where
  "shiftWhileOver limit [] = []"
| "shiftWhileOver limit (x # xs) =
     (if limit < length (x # xs) then shiftWhileOver limit xs else x # xs)"

definition setPerformanceLevel :: "PerfLevel \<Rightarrow> SplatViewer \<Rightarrow> SplatViewer" where
  "setPerformanceLevel level s =
     (if performanceLevel s = level then s
      else let s1 = s\<lparr>performanceLevel := level\<rparr>
           in s1\<lparr>floatingBubbles :=
                   shiftWhileOver (getActiveMaxFloatingBubbles s1) (floatingBubbles s1)\<rparr>)"

definition setFloatingBubbles :: "bool \<Rightarrow> string list \<Rightarrow> real \<Rightarrow> SplatViewer \<Rightarrow> SplatViewer" where
  "setFloatingBubbles layer messages now s =
     (let s1 = (resetFloatingBubbles False now s)
                 \<lparr>bubbleLayer := layer,
                  bubbleMessages := filter (\<lambda>m. 0 < length m) (map trim messages)\<rparr>
      in s1\<lparr>nextBubbleSpawnMs :=
              (if bubbleLayer s1 \<and> bubblesEnabledForModel s1
               then Finite (now + 320) else PosInfinity)\<rparr>)"

text \<open>
  The click listener of a marker. Only the elements of the markers of the list are in
  the layer, so a click names a marker of the list.
\<close>

definition clickBubble :: "nat \<Rightarrow> real \<Rightarrow> SplatViewer \<Rightarrow> SplatViewer" where
  "clickBubble b now s =
     (case find (\<lambda>e. bid e = b) (floatingBubbles s) of
        None \<Rightarrow> s
      | Some e \<Rightarrow> if kind e = TextBubble then activateTextBubble b now s
                  else dissipateBubble b now s)"

text \<open>\<^verbatim>\<open>onDocumentPointerDown\<close>; \<open>inside\<close> says that the target lies in the active marker.\<close>

definition onDocumentPointerDown ::
    "bool \<Rightarrow> real \<Rightarrow> real \<Rightarrow> real \<Rightarrow> SplatViewer \<Rightarrow> SplatViewer" where
  "onDocumentPointerDown inside now1 now2 rnd s =
     (case activeTextBubble s of
        None \<Rightarrow> s
      | Some active \<Rightarrow> if inside then s else dismissActiveTextBubble now1 now2 rnd s)"


section \<open>The life of a viewer\<close>

text \<open>
  The constructor; the two clock readings are those of the field initialisers
  \<^verbatim>\<open>animationStartTime\<close> and \<^verbatim>\<open>lastUniformUpdateTimeMs\<close>.
\<close>

definition newSplatViewer :: "bool \<Rightarrow> real \<Rightarrow> real \<Rightarrow> SplatViewer" where
  "newSplatViewer mobile now1 now2 =
     \<lparr>isMobileLike = mobile,
      hasSplatMesh = False,
      customUniforms = None,
      animationMode = Mode ModeNone,
      animationStartTime = now1,
      pointCloudEnabled = False,
      luminanceBridgeActive = False,
      luminanceBridgeFrom = 1,
      luminanceBridgeElapsed = 0,
      scaleBridgeActive = False,
      scaleBridgeFrom = 1,
      scaleBridgeElapsed = 0,
      colorGainApplied = 1,
      scaleApplied = 1,
      lastUniformUpdateTimeMs = now2,
      sceneRadius = 1,
      bubbleLayer = False,
      bubbleMessages = [],
      floatingBubbles = [],
      nextBubbleSpawnMs = PosInfinity,
      performanceLevel = High,
      lastBubbleTickMs = 0,
      bubblesEnabledForModel = False,
      activeTextBubble = None,
      nextBubbleId = 0,
      loadVersion = 0,
      disposed = False\<rparr>"

text \<open>
  \<^verbatim>\<open>load\<close> up to its first \<^verbatim>\<open>await\<close>, and from the moment the scene has been added.
  What the loaded viewer offers decides how the kernel is installed: no mesh, a mesh
  without a material (the uniforms stay unset), a shader without the anchors (the
  installation throws after the viewer has been stored), or a patched shader.
\<close>

datatype load_outcome = NoMesh | MeshWithoutMaterial | AnchorsMissing | Patched

definition loadBegin :: "SplatViewer \<Rightarrow> SplatViewer" where
  "loadBegin s =
     (if disposed s then s
      else (resetFloatingBubbles False 0
              (s\<lparr>loadVersion := Suc (loadVersion s),
                 customUniforms := None,
                 bubblesEnabledForModel := False\<rparr>))
           \<lparr>hasSplatMesh := False\<rparr>)"

definition loadComplete ::
    "nat \<Rightarrow> load_outcome \<Rightarrow> real \<Rightarrow> real \<Rightarrow> real \<Rightarrow> real \<Rightarrow> real \<Rightarrow> SplatViewer \<Rightarrow> SplatViewer" where
  "loadComplete currentLoadVersion outcome radius now1 now2 now3 now4 s =
     (if disposed s \<or> currentLoadVersion \<noteq> loadVersion s then s
      else let s1 = s\<lparr>hasSplatMesh := (outcome \<noteq> NoMesh)\<rparr>
           in if outcome = AnchorsMissing then s1
              else let s2 = (if outcome = Patched
                             then s1\<lparr>customUniforms := Some
                                       \<lparr>u_time = 0, u_mode = 0, u_morph = 0,
                                        u_colorGain = 1, u_strength = 1, u_radius = 1\<rparr>\<rparr>
                             else s1);
                       s3 = s2\<lparr>sceneRadius := (if outcome \<noteq> NoMesh \<and> 0 < radius then radius else 1),
                              bubblesEnabledForModel := True\<rparr>;
                       s4 = (resetFloatingBubbles True now1 s3)
                              \<lparr>animationStartTime := now2,
                               lastUniformUpdateTimeMs := now3,
                               colorGainApplied := 1,
                               scaleApplied := 1,
                               luminanceBridgeActive := False,
                               scaleBridgeActive := False\<rparr>
                   in updateAnimationUniforms now4 (applyAnimationStyle True s4))"

text \<open>\<^verbatim>\<open>update\<close>: one frame. The first clock reading is that of the uniforms.\<close>

definition update :: "real \<Rightarrow> frame \<Rightarrow> SplatViewer \<Rightarrow> SplatViewer" where
  "update now f s =
     (if disposed s then s else updateFloatingBubbles f (updateAnimationUniforms now s))"

definition dispose :: "SplatViewer \<Rightarrow> SplatViewer" where
  "dispose s =
     (if disposed s then s
      else (resetFloatingBubbles False 0 (s\<lparr>disposed := True\<rparr>))
           \<lparr>bubbleLayer := False, bubbleMessages := [], hasSplatMesh := False\<rparr>)"

text \<open>
  What can happen to a viewer: the calls of its public methods, the completion of a
  load, a click on a marker and a pointer press in the window (the listener is removed
  on disposal).
\<close>

datatype event =
    LoadBegin
  | LoadComplete nat load_outcome real real real real real
  | SetAnimation string real real real
  | SetFloatingBubbles bool "string list" real
  | SetPerformanceLevel PerfLevel
  | Update real frame
  | ClickBubble nat real
  | DocumentPointerDown bool real real real
  | Dispose

fun step :: "SplatViewer \<Rightarrow> event \<Rightarrow> SplatViewer" where
  "step s LoadBegin = loadBegin s"
| "step s (LoadComplete v outcome radius now1 now2 now3 now4) =
     loadComplete v outcome radius now1 now2 now3 now4 s"
| "step s (SetAnimation mode now1 now2 now3) = setAnimation mode now1 now2 now3 s"
| "step s (SetFloatingBubbles layer messages now) = setFloatingBubbles layer messages now s"
| "step s (SetPerformanceLevel level) = setPerformanceLevel level s"
| "step s (Update now f) = update now f s"
| "step s (ClickBubble b now) = clickBubble b now s"
| "step s (DocumentPointerDown inside now1 now2 rnd) =
     (if disposed s then s else onDocumentPointerDown inside now1 now2 rnd s)"
| "step s Dispose = dispose s"

definition run :: "SplatViewer \<Rightarrow> event list \<Rightarrow> SplatViewer" where
  "run s evs = foldl step s evs"


section \<open>What the claims speak of\<close>

subsection \<open>The morph of the specification\<close>

text \<open>
  The morph scalar in the words of the specification, to be compared with \<open>morphClock\<close>:
  the remainder is the mathematical one (between 0 and the loop length) and the easing
  does not clamp its argument.
\<close>

definition spec_easeInOutCubic :: "real \<Rightarrow> real" where
  "spec_easeInOutCubic x = (if x < 0.5 then 4 * x ^ 3 else 1 - (- 2 * x + 2) ^ 3 / 2)"

definition spec_phase :: "real \<Rightarrow> real" where
  "spec_phase t = (t - 3.2 * of_int \<lfloor>t / 3.2\<rfloor>) / 3.2"

definition spec_morph :: "real \<Rightarrow> real" where
  "spec_morph t =
     (let phase = spec_phase t;
          dispersing = phase < 0.5;
          triangle = (if dispersing then phase * 2 else (1 - phase) * 2)
      in spec_easeInOutCubic triangle)"

text \<open>The probe interval as the specification words it: doubled on the low tier.\<close>

definition spec_overlapCheckInterval :: "SplatViewer \<Rightarrow> real" where
  "spec_overlapCheckInterval s =
     (if isMobileLike s then 120 else 36) * (if performanceLevel s = Low then 2 else 1)"

subsection \<open>Markers and their environment\<close>

text \<open>
  The active marker is the one \<^verbatim>\<open>activeTextBubble\<close> refers to. A marker is dissipating
  when its life is over, which is the test by which the next tick removes it.
\<close>

definition markerActive :: "SplatViewer \<Rightarrow> FloatingBubbleEntry \<Rightarrow> bool" where
  "markerActive s e = (activeTextBubble s = Some (bid e))"

definition dissipating :: "real \<Rightarrow> FloatingBubbleEntry \<Rightarrow> bool" where
  "dissipating now e = (1 \<le> (now - spawnMs e) / lifeMs e)"

text \<open>\<^verbatim>\<open>Math.random\<close> draws from the unit interval, 1 excluded.\<close>

definition unitDraw :: "real \<Rightarrow> bool" where
  "unitDraw r = (0 \<le> r \<and> r < 1)"

fun drawsInRange :: "event \<Rightarrow> bool" where
  "drawsInRange (Update now f) = (unitDraw (f_rndKind f) \<and> unitDraw (f_rndLife f) \<and> unitDraw (f_rndGap f))"
| "drawsInRange (DocumentPointerDown inside now1 now2 rnd) = unitDraw rnd"
| "drawsInRange _ = True"

text \<open>The readback fails: there is no usable context, or every read throws.\<close>

definition probeFails :: "gl_context option \<Rightarrow> bool" where
  "probeFails glOpt = (case glOpt of None \<Rightarrow> True | Some g \<Rightarrow> \<forall>x y. readPixels g x y = Throws)"

fun probeFailsIn :: "event \<Rightarrow> bool" where
  "probeFailsIn (Update now f) = probeFails (f_gl f)"
| "probeFailsIn _ = True"

subsection \<open>Invariants\<close>

text \<open>
  What every reachable state satisfies: no bridge is active between two calls; the
  markers of the list are distinct objects, created before the next one; only the
  active marker is open; lives are positive; the list is within the capacity; and, as
  long as the readback fails, no marker reports \<open>overModel\<close>.
\<close>

definition bridgesOff :: "SplatViewer \<Rightarrow> bool" where
  "bridgesOff s = (\<not> luminanceBridgeActive s \<and> \<not> scaleBridgeActive s)"

definition idsOk :: "SplatViewer \<Rightarrow> bool" where
  "idsOk s = (distinct (map bid (floatingBubbles s)) \<and> (\<forall>e\<in>set (floatingBubbles s). bid e < nextBubbleId s))"

definition openOk :: "SplatViewer \<Rightarrow> bool" where
  "openOk s = (\<forall>e\<in>set (floatingBubbles s). isOpen e \<longrightarrow> activeTextBubble s = Some (bid e))"

definition livesOk :: "SplatViewer \<Rightarrow> bool" where
  "livesOk s = (\<forall>e\<in>set (floatingBubbles s). 0 < lifeMs e)"

definition capOk :: "SplatViewer \<Rightarrow> bool" where
  "capOk s = (length (floatingBubbles s) \<le> getActiveMaxFloatingBubbles s)"

definition clearOk :: "SplatViewer \<Rightarrow> bool" where
  "clearOk s = (\<forall>e\<in>set (floatingBubbles s). \<not> overModel e)"

text \<open>
  The parts of \<^verbatim>\<open>spawnFloatingBubble\<close> and \<^verbatim>\<open>updateFloatingBubbles\<close> that change the list:
  the push of a new marker, the eviction of the oldest, and the loop over the markers.
\<close>

definition pushed :: "FloatingBubbleEntry \<Rightarrow> SplatViewer \<Rightarrow> SplatViewer" where
  "pushed new s = s\<lparr>floatingBubbles := floatingBubbles s @ [new], nextBubbleId := Suc (nextBubbleId s)\<rparr>"

definition evictWhenOver :: "SplatViewer \<Rightarrow> SplatViewer" where
  "evictWhenOver s = (if getActiveMaxFloatingBubbles s < length (floatingBubbles s)
                      then s\<lparr>floatingBubbles := tl (floatingBubbles s)\<rparr> else s)"

definition loopBody :: "frame \<Rightarrow> SplatViewer \<Rightarrow> SplatViewer" where
  "loopBody f s = s\<lparr>floatingBubbles := List.map_filter (updateBubble f s) (floatingBubbles s)\<rparr>"


section \<open>Sample inputs\<close>

text \<open>
  A viewer on a desktop with a loaded mesh and a patched shader, in a given mode, whose
  animation started at clock reading 0; and the uniforms of a frame in explode mode at
  the time \<open>\<pi> / 1.92\<close>, where the burst of the splat with index 0 peaks.
\<close>

definition sampleViewer :: "mode_value \<Rightarrow> SplatViewer" where
  "sampleViewer m =
     (newSplatViewer False 0 0)
       \<lparr>hasSplatMesh := True,
        customUniforms := Some \<lparr>u_time = 0, u_mode = 0, u_morph = 0,
                                u_colorGain = 1, u_strength = 1, u_radius = 1\<rparr>,
        animationMode := m\<rparr>"

definition peakUniforms :: CustomUniformRefs where
  "peakUniforms = \<lparr>u_time = pi / 1.92, u_mode = 5, u_morph = 1,
                    u_colorGain = 1, u_strength = 1, u_radius = 1\<rparr>"

text \<open>
  A drawing context whose reads all throw and one whose pixels are all opaque; a frame
  at a given clock reading on a canvas of 800 by 600 pixels, with every marker projected
  to the centre; a plain marker born a second before time 0; a desktop viewer on the
  low tier; and a short session: a load, a layer with one note, a frame in which a text
  marker is spawned, and (in \<open>activeSession\<close>) a click on that marker.
\<close>

definition throwingGl :: gl_context where
  "throwingGl = \<lparr>drawingBufferWidth = 800, drawingBufferHeight = 600,
                  readPixels = (\<lambda>x y. Throws)\<rparr>"

definition opaqueGl :: gl_context where
  "opaqueGl = \<lparr>drawingBufferWidth = 800, drawingBufferHeight = 600,
                readPixels = (\<lambda>x y. Pixel 255 255 255 255)\<rparr>"

definition sampleFrame :: "real \<Rightarrow> gl_context option \<Rightarrow> frame" where
  "sampleFrame now g =
     \<lparr>f_nowMs = now, f_canvasWidth = 800, f_canvasHeight = 600, f_gl = g,
      f_projection = (\<lambda>b. (0, 0, 0)), f_rndKind = 0.1, f_rndLife = 0.5, f_rndGap = 0.5\<rparr>"

definition sampleBubble :: FloatingBubbleEntry where
  "sampleBubble =
     \<lparr>bid = 0, kind = PlainBubble, isOpen = False, spawnMs = - 1000, lastUpdateMs = 0,
      lifeMs = 4000, revealUntilMs = Finite 0, maxAlpha = 0.56, screenX = 400, screenY = 300,
      overModel = False, lastOverlapCheckMs = 0\<rparr>"

definition lowDesktopViewer :: SplatViewer where
  "lowDesktopViewer = (newSplatViewer False 0 0)\<lparr>performanceLevel := Low\<rparr>"

definition sampleSession :: "gl_context option \<Rightarrow> event list" where
  "sampleSession g =
     [LoadBegin, LoadComplete 1 MeshWithoutMaterial 1 0 0 0 0,
      SetFloatingBubbles True [''note''] 0, Update 400 (sampleFrame 400 g)]"

definition activeSession :: SplatViewer where
  "activeSession = run (newSplatViewer False 0 0) (sampleSession None @ [ClickBubble 0 500])"


section \<open>Lemmas\<close>

subsection \<open>The morph clock\<close>

lemma js_rem_nonneg: "0 \<le> t \<Longrightarrow> 0 < L \<Longrightarrow> js_rem t L = t - L * of_int \<lfloor>t / L\<rfloor>"
  by (simp add: js_rem_def)

lemma js_rem_period:
  assumes "0 \<le> t" "0 < L"
  shows "js_rem (t + L) L = js_rem t L"
proof -
  have e: "(t + L) / L = t / L + 1" using assms by (simp add: field_simps)
  have "\<lfloor>(t + L) / L\<rfloor> = \<lfloor>t / L\<rfloor> + 1" unfolding e by simp
  then show ?thesis using assms by (simp add: js_rem_nonneg algebra_simps)
qed

lemma floor_phase_range:
  assumes "0 < L"
  shows "0 \<le> (t - L * of_int \<lfloor>t / L\<rfloor>) / L \<and> (t - L * of_int \<lfloor>t / L\<rfloor>) / L < 1"
proof -
  have e: "(t - L * of_int \<lfloor>t / L\<rfloor>) / L = t / L - of_int \<lfloor>t / L\<rfloor>"
    using assms by (simp add: field_simps)
  have a: "of_int \<lfloor>t / L\<rfloor> \<le> t / L" by simp
  have b: "t / L < of_int \<lfloor>t / L\<rfloor> + 1" by linarith
  show ?thesis unfolding e using a b by linarith
qed

lemma spec_phase_range: "0 \<le> spec_phase t \<and> spec_phase t < 1"
  unfolding spec_phase_def by (rule floor_phase_range) simp

lemma easeInOutCubic_range: "0 \<le> easeInOutCubic x \<and> easeInOutCubic x \<le> 1"
proof -
  define y where "y = max 0 (min 1 x)"
  have y: "0 \<le> y" "y \<le> 1" by (simp_all add: y_def)
  have e: "easeInOutCubic x = (if y < 0.5 then 4 * y * y * y else 1 - (- 2 * y + 2) ^ 3 / 2)"
    unfolding easeInOutCubic_def y_def Let_def ..
  show ?thesis
  proof (cases "y < 0.5")
    case True
    have "y * y * y \<le> (1/2) * (1/2) * (1/2)" using y True by (intro mult_mono) auto
    moreover have "0 \<le> y * y * y" using y by simp
    ultimately show ?thesis using e True by simp
  next
    case False
    define z where "z = - 2 * y + 2"
    have z: "0 \<le> z" "z \<le> 1" using False y by (simp_all add: z_def)
    have "z ^ 3 \<le> 1" using z by (simp add: power_le_one)
    moreover have "0 \<le> z ^ 3" using z by simp
    ultimately show ?thesis using e False by (simp add: z_def)
  qed
qed

lemma ease_unclamped: "0 \<le> x \<Longrightarrow> x \<le> 1 \<Longrightarrow> easeInOutCubic x = spec_easeInOutCubic x"
  by (simp add: easeInOutCubic_def spec_easeInOutCubic_def power3_eq_cube algebra_simps)

lemma morphClock_spec:
  assumes "m \<noteq> Mode ModeNone" "0 \<le> t"
  shows "fst (morphClock m t) = spec_morph t"
proof -
  have p: "js_rem t 3.2 / 3.2 = spec_phase t"
    unfolding spec_phase_def using assms(2) by (subst js_rem_nonneg) simp_all
  have r: "0 \<le> spec_phase t" "spec_phase t < 1" using spec_phase_range by auto
  show ?thesis
    using assms(1) r unfolding morphClock_def spec_morph_def p Let_def
    by (auto simp: ease_unclamped)
qed

lemma morphClock_period: "0 \<le> t \<Longrightarrow> morphClock m (t + 3.2) = morphClock m t"
  unfolding morphClock_def by (subst js_rem_period) simp_all

lemma tick_morph:
  assumes "customUniforms s = Some u"
  shows "customUniforms (updateAnimationUniforms now s) \<noteq> None"
    and "u_morph (the (customUniforms (updateAnimationUniforms now s)))
         = fst (morphClock (animationMode s) ((now - animationStartTime s) / 1000))"
  using assms by (simp_all add: updateAnimationUniforms_def Let_def split: prod.splits)

lemma morphClock_range: "0 \<le> fst (morphClock m t) \<and> fst (morphClock m t) \<le> 1"
  using easeInOutCubic_range by (simp add: morphClock_def Let_def)

lemma morphClock_zero: "m \<noteq> Mode ModeNone \<Longrightarrow> fst (morphClock m 0) = 0"
  by (simp add: morphClock_def js_rem_def easeInOutCubic_def)

lemma morphClock_half: "m \<noteq> Mode ModeNone \<Longrightarrow> fst (morphClock m 1.6) = 1"
  by (simp add: morphClock_def js_rem_def easeInOutCubic_def)

subsection \<open>What a tick leaves alone\<close>

lemma switch_frame [simp]:
  "animationMode (switchRepresentation s m d) = animationMode s"
  "animationStartTime (switchRepresentation s m d) = animationStartTime s"
  "colorGainApplied (switchRepresentation s m d) = colorGainApplied s"
  "scaleApplied (switchRepresentation s m d) = scaleApplied s"
  "hasSplatMesh (switchRepresentation s m d) = hasSplatMesh s"
  "sceneRadius (switchRepresentation s m d) = sceneRadius s"
  "floatingBubbles (switchRepresentation s m d) = floatingBubbles s"
  "activeTextBubble (switchRepresentation s m d) = activeTextBubble s"
  "performanceLevel (switchRepresentation s m d) = performanceLevel s"
  "isMobileLike (switchRepresentation s m d) = isMobileLike s"
  "nextBubbleId (switchRepresentation s m d) = nextBubbleId s"
  "bubbleLayer (switchRepresentation s m d) = bubbleLayer s"
  "bubblesEnabledForModel (switchRepresentation s m d) = bubblesEnabledForModel s"
  "nextBubbleSpawnMs (switchRepresentation s m d) = nextBubbleSpawnMs s"
  "lastBubbleTickMs (switchRepresentation s m d) = lastBubbleTickMs s"
  "bubbleMessages (switchRepresentation s m d) = bubbleMessages s"
  "disposed (switchRepresentation s m d) = disposed s"
  "loadVersion (switchRepresentation s m d) = loadVersion s"
  by (simp_all add: switchRepresentation_def Let_def)

lemma scaleBridge_frame [simp]:
  "animationMode (snd (scaleBridgeStep s dt m d t)) = animationMode s"
  "animationStartTime (snd (scaleBridgeStep s dt m d t)) = animationStartTime s"
  "colorGainApplied (snd (scaleBridgeStep s dt m d t)) = colorGainApplied s"
  "scaleApplied (snd (scaleBridgeStep s dt m d t)) = scaleApplied s"
  "pointCloudEnabled (snd (scaleBridgeStep s dt m d t)) = pointCloudEnabled s"
  "luminanceBridgeActive (snd (scaleBridgeStep s dt m d t)) = luminanceBridgeActive s"
  "hasSplatMesh (snd (scaleBridgeStep s dt m d t)) = hasSplatMesh s"
  "sceneRadius (snd (scaleBridgeStep s dt m d t)) = sceneRadius s"
  "floatingBubbles (snd (scaleBridgeStep s dt m d t)) = floatingBubbles s"
  "activeTextBubble (snd (scaleBridgeStep s dt m d t)) = activeTextBubble s"
  "performanceLevel (snd (scaleBridgeStep s dt m d t)) = performanceLevel s"
  "isMobileLike (snd (scaleBridgeStep s dt m d t)) = isMobileLike s"
  "nextBubbleId (snd (scaleBridgeStep s dt m d t)) = nextBubbleId s"
  "bubbleLayer (snd (scaleBridgeStep s dt m d t)) = bubbleLayer s"
  "bubblesEnabledForModel (snd (scaleBridgeStep s dt m d t)) = bubblesEnabledForModel s"
  "nextBubbleSpawnMs (snd (scaleBridgeStep s dt m d t)) = nextBubbleSpawnMs s"
  "lastBubbleTickMs (snd (scaleBridgeStep s dt m d t)) = lastBubbleTickMs s"
  "bubbleMessages (snd (scaleBridgeStep s dt m d t)) = bubbleMessages s"
  "disposed (snd (scaleBridgeStep s dt m d t)) = disposed s"
  "loadVersion (snd (scaleBridgeStep s dt m d t)) = loadVersion s"
  by (simp_all add: scaleBridgeStep_def Let_def)

lemma luminanceBridge_frame [simp]:
  "animationMode (snd (luminanceBridgeStep s dt m d t)) = animationMode s"
  "animationStartTime (snd (luminanceBridgeStep s dt m d t)) = animationStartTime s"
  "colorGainApplied (snd (luminanceBridgeStep s dt m d t)) = colorGainApplied s"
  "scaleApplied (snd (luminanceBridgeStep s dt m d t)) = scaleApplied s"
  "pointCloudEnabled (snd (luminanceBridgeStep s dt m d t)) = pointCloudEnabled s"
  "scaleBridgeActive (snd (luminanceBridgeStep s dt m d t)) = scaleBridgeActive s"
  "hasSplatMesh (snd (luminanceBridgeStep s dt m d t)) = hasSplatMesh s"
  "sceneRadius (snd (luminanceBridgeStep s dt m d t)) = sceneRadius s"
  "floatingBubbles (snd (luminanceBridgeStep s dt m d t)) = floatingBubbles s"
  "activeTextBubble (snd (luminanceBridgeStep s dt m d t)) = activeTextBubble s"
  "performanceLevel (snd (luminanceBridgeStep s dt m d t)) = performanceLevel s"
  "isMobileLike (snd (luminanceBridgeStep s dt m d t)) = isMobileLike s"
  "nextBubbleId (snd (luminanceBridgeStep s dt m d t)) = nextBubbleId s"
  "bubbleLayer (snd (luminanceBridgeStep s dt m d t)) = bubbleLayer s"
  "bubblesEnabledForModel (snd (luminanceBridgeStep s dt m d t)) = bubblesEnabledForModel s"
  "nextBubbleSpawnMs (snd (luminanceBridgeStep s dt m d t)) = nextBubbleSpawnMs s"
  "lastBubbleTickMs (snd (luminanceBridgeStep s dt m d t)) = lastBubbleTickMs s"
  "bubbleMessages (snd (luminanceBridgeStep s dt m d t)) = bubbleMessages s"
  "disposed (snd (luminanceBridgeStep s dt m d t)) = disposed s"
  "loadVersion (snd (luminanceBridgeStep s dt m d t)) = loadVersion s"
  by (simp_all add: luminanceBridgeStep_def Let_def)

lemma follow_frame [simp]:
  "animationMode (followTargets s dt g sc) = animationMode s"
  "animationStartTime (followTargets s dt g sc) = animationStartTime s"
  "pointCloudEnabled (followTargets s dt g sc) = pointCloudEnabled s"
  "luminanceBridgeActive (followTargets s dt g sc) = luminanceBridgeActive s"
  "scaleBridgeActive (followTargets s dt g sc) = scaleBridgeActive s"
  "hasSplatMesh (followTargets s dt g sc) = hasSplatMesh s"
  "sceneRadius (followTargets s dt g sc) = sceneRadius s"
  "floatingBubbles (followTargets s dt g sc) = floatingBubbles s"
  "activeTextBubble (followTargets s dt g sc) = activeTextBubble s"
  "performanceLevel (followTargets s dt g sc) = performanceLevel s"
  "isMobileLike (followTargets s dt g sc) = isMobileLike s"
  "nextBubbleId (followTargets s dt g sc) = nextBubbleId s"
  "bubbleLayer (followTargets s dt g sc) = bubbleLayer s"
  "bubblesEnabledForModel (followTargets s dt g sc) = bubblesEnabledForModel s"
  "nextBubbleSpawnMs (followTargets s dt g sc) = nextBubbleSpawnMs s"
  "lastBubbleTickMs (followTargets s dt g sc) = lastBubbleTickMs s"
  "bubbleMessages (followTargets s dt g sc) = bubbleMessages s"
  "disposed (followTargets s dt g sc) = disposed s"
  "loadVersion (followTargets s dt g sc) = loadVersion s"
  by (simp_all add: followTargets_def Let_def)

lemma tick_frame [simp]:
  "animationMode (updateAnimationUniforms now s) = animationMode s"
  "animationStartTime (updateAnimationUniforms now s) = animationStartTime s"
  "hasSplatMesh (updateAnimationUniforms now s) = hasSplatMesh s"
  "sceneRadius (updateAnimationUniforms now s) = sceneRadius s"
  "floatingBubbles (updateAnimationUniforms now s) = floatingBubbles s"
  "activeTextBubble (updateAnimationUniforms now s) = activeTextBubble s"
  "performanceLevel (updateAnimationUniforms now s) = performanceLevel s"
  "isMobileLike (updateAnimationUniforms now s) = isMobileLike s"
  "nextBubbleId (updateAnimationUniforms now s) = nextBubbleId s"
  "bubbleLayer (updateAnimationUniforms now s) = bubbleLayer s"
  "bubblesEnabledForModel (updateAnimationUniforms now s) = bubblesEnabledForModel s"
  "nextBubbleSpawnMs (updateAnimationUniforms now s) = nextBubbleSpawnMs s"
  "lastBubbleTickMs (updateAnimationUniforms now s) = lastBubbleTickMs s"
  "bubbleMessages (updateAnimationUniforms now s) = bubbleMessages s"
  "disposed (updateAnimationUniforms now s) = disposed s"
  "loadVersion (updateAnimationUniforms now s) = loadVersion s"
  by (simp_all add: updateAnimationUniforms_def Let_def case_prod_beta split: option.splits)

subsection \<open>The gate and the rate limit\<close>

lemma tick_pointCloudEnabled:
  assumes "customUniforms s = Some u"
  shows "pointCloudEnabled (updateAnimationUniforms now s)
         = pointCloudEnabled (switchRepresentation (s\<lparr>lastUniformUpdateTimeMs := now\<rparr>)
             (fst (morphClock (animationMode s) ((now - animationStartTime s) / 1000)))
             (snd (morphClock (animationMode s) ((now - animationStartTime s) / 1000))))"
  using assms by (simp add: updateAnimationUniforms_def Let_def case_prod_beta)

lemma switch_gate:
  assumes "hasSplatMesh s" "animationMode s \<noteq> Mode ModeNone"
  shows "(d \<and> 0.38 \<le> m \<longrightarrow> pointCloudEnabled (switchRepresentation s m d))
       \<and> (\<not> d \<and> m \<le> 0.02 \<longrightarrow> \<not> pointCloudEnabled (switchRepresentation s m d))
       \<and> (\<not> d \<and> m \<le> 0.34 \<longrightarrow> \<not> pointCloudEnabled (switchRepresentation s m d))"
  using assms
  by (auto simp: switchRepresentation_def inModelRevealWindow_def gateTarget_def Let_def)

lemma gate_rules:
  assumes "customUniforms s = Some u" "hasSplatMesh s" "animationMode s \<noteq> Mode ModeNone"
    and "morphClock (animationMode s) ((now - animationStartTime s) / 1000) = (morph, dispersing)"
  shows "(dispersing \<and> 0.38 \<le> morph \<longrightarrow> pointCloudEnabled (updateAnimationUniforms now s))
       \<and> (\<not> dispersing \<and> morph \<le> 0.02 \<longrightarrow> \<not> pointCloudEnabled (updateAnimationUniforms now s))
       \<and> (\<not> dispersing \<and> morph \<le> 0.34 \<longrightarrow> \<not> pointCloudEnabled (updateAnimationUniforms now s))"
  unfolding tick_pointCloudEnabled[OF assms(1)] assms(4) fst_conv snd_conv
  by (rule switch_gate) (simp_all add: assms)

lemma limit_arith:
  fixes r f st g0 :: real
  assumes "0 \<le> r" "0 \<le> f"
  shows "(if r < st then g0 + r else if st < - f then g0 - f else g0 + st) - g0 \<le> r
       \<and> g0 - (if r < st then g0 + r else if st < - f then g0 - f else g0 + st) \<le> f"
  using assms by auto

lemma follow_gain:
  assumes "0 \<le> dt" "colorGainApplied s = c"
  shows "colorGainApplied (followTargets s dt g sc) - c \<le> 0.35 * dt
       \<and> c - colorGainApplied (followTargets s dt g sc) \<le> 1.8 * dt"
proof -
  define st where "st = (g - c) * (1 - exp (- dt / 0.18))"
  have r: "0 \<le> 0.35 * dt" "0 \<le> 1.8 * dt" using assms(1) by simp_all
  have e: "colorGainApplied (followTargets s dt g sc)
        = (if 0.35 * dt < st then c + 0.35 * dt else if st < - (1.8 * dt) then c - 1.8 * dt else c + st)"
    unfolding followTargets_def Let_def st_def assms(2)[symmetric] by simp
  show ?thesis unfolding e by (rule limit_arith[OF r])
qed

lemma clampDt_range: "0 \<le> clampDt now lastMs \<and> clampDt now lastMs \<le> 0.05"
  by (simp add: clampDt_def)

lemma rate_limit:
  "colorGainApplied (updateAnimationUniforms now s) - colorGainApplied s
     \<le> 0.35 * clampDt now (lastUniformUpdateTimeMs s)
   \<and> colorGainApplied s - colorGainApplied (updateAnimationUniforms now s)
     \<le> 1.8 * clampDt now (lastUniformUpdateTimeMs s)"
proof (cases "customUniforms s")
  case None
  then show ?thesis using clampDt_range[of now "lastUniformUpdateTimeMs s"]
    by (simp add: updateAnimationUniforms_def)
next
  case (Some u)
  define dt where "dt = clampDt now (lastUniformUpdateTimeMs s)"
  define s0 where "s0 = s\<lparr>lastUniformUpdateTimeMs := now\<rparr>"
  define mc where "mc = morphClock (animationMode s0) ((now - animationStartTime s) / 1000)"
  define s1 where "s1 = switchRepresentation s0 (fst mc) (snd mc)"
  define r2 where "r2 = scaleBridgeStep s1 dt (fst mc) (snd mc) (targetScale s0 (fst mc) (snd mc))"
  define r3 where "r3 = luminanceBridgeStep (snd r2) dt (fst mc) (snd mc)
                          (colorGainTarget s0 (fst mc) (snd mc))"
  have g: "colorGainApplied (updateAnimationUniforms now s)
           = colorGainApplied (followTargets (snd r3) dt (fst r3) (fst r2))"
    using Some
    by (simp add: updateAnimationUniforms_def Let_def case_prod_beta
        r3_def r2_def s1_def s0_def dt_def mc_def)
  have p: "colorGainApplied (snd r3) = colorGainApplied s"
    by (simp add: r3_def r2_def s1_def s0_def)
  have "0 \<le> dt" using clampDt_range by (simp add: dt_def)
  from follow_gain[OF this p, of "fst r3" "fst r2"] show ?thesis
    unfolding g dt_def .
qed

subsection \<open>One marker in the loop\<close>

lemma foldl_inv:
  assumes "P s" and "\<And>st x. P st \<Longrightarrow> P (f st x)"
  shows "P (foldl f s xs)"
  using assms(1) by (induction xs arbitrary: s) (simp_all add: assms(2))

lemma closeWhenDue_keeps [simp]:
  "bid (closeWhenDue now s e) = bid e"
  "lifeMs (closeWhenDue now s e) = lifeMs e"
  "kind (closeWhenDue now s e) = kind e"
  "overModel (closeWhenDue now s e) = overModel e"
  "lastOverlapCheckMs (closeWhenDue now s e) = lastOverlapCheckMs e"
  "spawnMs (closeWhenDue now s e) = spawnMs e"
  by (simp_all add: closeWhenDue_def)

lemma closeWhenDue_open: "isOpen (closeWhenDue now s e) \<Longrightarrow> isOpen e"
  by (simp add: closeWhenDue_def split: if_splits)

lemma probeWhenDue_keeps [simp]:
  "bid (probeWhenDue f s px py e) = bid e"
  "lifeMs (probeWhenDue f s px py e) = lifeMs e"
  "kind (probeWhenDue f s px py e) = kind e"
  "spawnMs (probeWhenDue f s px py e) = spawnMs e"
  "isOpen (probeWhenDue f s px py e) = isOpen e"
  by (simp_all add: probeWhenDue_def)

lemma showBubble_keeps [simp]:
  "bid (showBubble f s a x y e) = bid e"
  "lifeMs (showBubble f s a x y e) = lifeMs e"
  "kind (showBubble f s a x y e) = kind e"
  "spawnMs (showBubble f s a x y e) = spawnMs e"
  by (simp_all add: showBubble_def Let_def)

lemma showBubble_open: "isOpen (showBubble f s a x y e) \<Longrightarrow> isOpen e"
  by (simp add: showBubble_def Let_def split: if_splits) (auto dest: closeWhenDue_open)

lemma updateBubble_cases:
  assumes "updateBubble f s e = Some e'"
  obtains "e' = closeWhenDue (f_nowMs f) s (e\<lparr>lastUpdateMs := f_nowMs f\<rparr>)"
  | a x y where "e' = showBubble f s a x y (e\<lparr>lastUpdateMs := f_nowMs f\<rparr>)"
  using assms
  by (simp add: updateBubble_def Let_def split: if_splits prod.splits) blast+

lemma updateBubble_keeps:
  assumes "updateBubble f s e = Some e'"
  shows "bid e' = bid e" "lifeMs e' = lifeMs e" "kind e' = kind e" "spawnMs e' = spawnMs e"
    "isOpen e' \<Longrightarrow> isOpen e"
  using assms by (auto elim!: updateBubble_cases dest: closeWhenDue_open showBubble_open)

subsection \<open>No bridge outlives a tick\<close>

text \<open>
  A bridge is armed only when the point cloud is switched off, which for a mode other
  than none happens only inside the reveal window, where the same tick disarms it.
\<close>

lemma window_frame [simp]:
  "inModelRevealWindow (switchRepresentation s m d) m' d' = inModelRevealWindow s m' d'"
  "inModelRevealWindow (snd (scaleBridgeStep s dt m d t)) m' d' = inModelRevealWindow s m' d'"
  by (simp_all add: inModelRevealWindow_def)

lemma switch_arms:
  assumes "scaleBridgeActive (switchRepresentation s m d) \<or> luminanceBridgeActive (switchRepresentation s m d)"
    and "bridgesOff s"
  shows "inModelRevealWindow s m d \<or> animationMode s = Mode ModeNone"
  using assms
  by (auto simp: switchRepresentation_def bridgesOff_def inModelRevealWindow_def gateTarget_def
      Let_def split: if_splits)

lemma scaleBridge_stays:
  assumes "scaleBridgeActive (snd (scaleBridgeStep s dt m d t))"
  shows "\<not> inModelRevealWindow s m d \<and> animationMode s \<noteq> Mode ModeNone"
  using assms by (auto simp: scaleBridgeStep_def Let_def split: if_splits)

lemma luminanceBridge_stays:
  assumes "luminanceBridgeActive (snd (luminanceBridgeStep s dt m d t))"
  shows "\<not> inModelRevealWindow s m d \<and> animationMode s \<noteq> Mode ModeNone"
  using assms by (auto simp: luminanceBridgeStep_def Let_def split: if_splits)

lemma luminance_after_scale [simp]:
  "luminanceBridgeActive (snd (scaleBridgeStep s dt m d t)) = luminanceBridgeActive s"
  by simp

lemma tick_bridgesOff:
  assumes "bridgesOff s"
  shows "bridgesOff (updateAnimationUniforms now s)"
proof (cases "customUniforms s")
  case None
  then show ?thesis using assms by (simp add: updateAnimationUniforms_def)
next
  case (Some u)
  define dt where "dt = clampDt now (lastUniformUpdateTimeMs s)"
  define s0 where "s0 = s\<lparr>lastUniformUpdateTimeMs := now\<rparr>"
  define mc where "mc = morphClock (animationMode s0) ((now - animationStartTime s) / 1000)"
  define s1 where "s1 = switchRepresentation s0 (fst mc) (snd mc)"
  define r2 where "r2 = scaleBridgeStep s1 dt (fst mc) (snd mc) (targetScale s0 (fst mc) (snd mc))"
  define r3 where "r3 = luminanceBridgeStep (snd r2) dt (fst mc) (snd mc)
                          (colorGainTarget s0 (fst mc) (snd mc))"
  have sc: "scaleBridgeActive (updateAnimationUniforms now s) = scaleBridgeActive (snd r2)"
    using Some
    by (simp add: updateAnimationUniforms_def Let_def case_prod_beta
        r3_def r2_def s1_def s0_def dt_def mc_def)
  have lu: "luminanceBridgeActive (updateAnimationUniforms now s) = luminanceBridgeActive (snd r3)"
    using Some
    by (simp add: updateAnimationUniforms_def Let_def case_prod_beta
        r3_def r2_def s1_def s0_def dt_def mc_def)
  have off0: "bridgesOff s0" using assms by (simp add: bridgesOff_def s0_def)
  have a: "\<not> scaleBridgeActive (snd r2)"
  proof
    assume h: "scaleBridgeActive (snd r2)"
    then have n: "\<not> inModelRevealWindow s1 (fst mc) (snd mc)" "animationMode s1 \<noteq> Mode ModeNone"
      using scaleBridge_stays unfolding r2_def by blast+
    from h have "scaleBridgeActive s1" unfolding r2_def
      by (auto simp: scaleBridgeStep_def Let_def split: if_splits)
    then have "inModelRevealWindow s0 (fst mc) (snd mc) \<or> animationMode s0 = Mode ModeNone"
      unfolding s1_def using switch_arms off0 by blast
    then show False using n by (simp add: s1_def)
  qed
  have b: "\<not> luminanceBridgeActive (snd r3)"
  proof
    assume h: "luminanceBridgeActive (snd r3)"
    then have n: "\<not> inModelRevealWindow (snd r2) (fst mc) (snd mc)" "animationMode (snd r2) \<noteq> Mode ModeNone"
      using luminanceBridge_stays unfolding r3_def by blast+
    from h have "luminanceBridgeActive (snd r2)" unfolding r3_def
      by (auto simp: luminanceBridgeStep_def Let_def split: if_splits)
    then have "luminanceBridgeActive s1" by (simp add: r2_def)
    then have "inModelRevealWindow s0 (fst mc) (snd mc) \<or> animationMode s0 = Mode ModeNone"
      unfolding s1_def using switch_arms off0 by blast
    then show False using n by (simp add: s1_def r2_def)
  qed
  show ?thesis unfolding bridgesOff_def sc lu using a b by simp
qed

subsection \<open>Setting the animation\<close>

lemma applyStyle_frame [simp]:
  "animationMode (applyAnimationStyle r s) = animationMode s"
  "animationStartTime (applyAnimationStyle r s) = animationStartTime s"
  "luminanceBridgeActive (applyAnimationStyle r s) = luminanceBridgeActive s"
  "scaleBridgeActive (applyAnimationStyle r s) = scaleBridgeActive s"
  "customUniforms (applyAnimationStyle r s) = customUniforms s"
  "hasSplatMesh (applyAnimationStyle r s) = hasSplatMesh s"
  "floatingBubbles (applyAnimationStyle r s) = floatingBubbles s"
  "activeTextBubble (applyAnimationStyle r s) = activeTextBubble s"
  "performanceLevel (applyAnimationStyle r s) = performanceLevel s"
  "isMobileLike (applyAnimationStyle r s) = isMobileLike s"
  "nextBubbleId (applyAnimationStyle r s) = nextBubbleId s"
  "bubbleLayer (applyAnimationStyle r s) = bubbleLayer s"
  "bubblesEnabledForModel (applyAnimationStyle r s) = bubblesEnabledForModel s"
  "disposed (applyAnimationStyle r s) = disposed s"
  by (simp_all add: applyAnimationStyle_def)

lemma setAnimation_frame [simp]:
  "floatingBubbles (setAnimation mode n1 n2 n3 s) = floatingBubbles s"
  "activeTextBubble (setAnimation mode n1 n2 n3 s) = activeTextBubble s"
  "performanceLevel (setAnimation mode n1 n2 n3 s) = performanceLevel s"
  "isMobileLike (setAnimation mode n1 n2 n3 s) = isMobileLike s"
  "nextBubbleId (setAnimation mode n1 n2 n3 s) = nextBubbleId s"
  "disposed (setAnimation mode n1 n2 n3 s) = disposed s"
  by (simp_all add: setAnimation_def Let_def)

lemma setAnimation_mode [simp]:
  "animationMode (setAnimation mode n1 n2 n3 s) = lookupMode (normalizeModeName mode)"
  by (simp add: setAnimation_def Let_def)

lemma setAnimation_start [simp]:
  "animationStartTime (setAnimation mode n1 n2 n3 s) = n1"
  by (simp add: setAnimation_def Let_def)

lemma setAnimation_bridgesOff:
  assumes "bridgesOff s \<or> lookupMode (normalizeModeName mode) = Mode ModeNone"
  shows "bridgesOff (setAnimation mode n1 n2 n3 s)"
  unfolding setAnimation_def Let_def
  by (rule tick_bridgesOff) (use assms in \<open>auto simp: bridgesOff_def\<close>)

lemma normalize_constructor: "normalizeModeName ''constructor'' = ''constructor''"
  by code_simp

lemma lookup_constructor: "lookupMode ''constructor'' = Inherited ''constructor''"
  by code_simp

lemma lookup_zwave: "lookupMode (normalizeModeName ''Z-Wave'') = Mode Zwave"
  by code_simp

lemma lookup_bogus: "lookupMode (normalizeModeName ''bogus'') = Mode ModeNone"
  by code_simp

lemma lookup_breathe: "lookupMode (normalizeModeName ''  Breathe '') = Mode Breath"
  by code_simp



subsection \<open>A bridge across a change of mode\<close>





lemma scaleBridge_keeps_luminance [simp]:
  "luminanceBridgeElapsed (snd (scaleBridgeStep s dt m d t)) = luminanceBridgeElapsed s"
  by (simp add: scaleBridgeStep_def Let_def)





subsection \<open>The invariants, operation by operation\<close>

lemmas inv_defs = idsOk_def openOk_def livesOk_def capOk_def clearOk_def bridgesOff_def

lemma cap_cong:
  "performanceLevel s' = performanceLevel s \<Longrightarrow> isMobileLike s' = isMobileLike s
    \<Longrightarrow> getActiveMaxFloatingBubbles s' = getActiveMaxFloatingBubbles s"
  by (simp add: getActiveMaxFloatingBubbles_def)

lemma cap_upd [simp]:
  "getActiveMaxFloatingBubbles (s\<lparr>floatingBubbles := a\<rparr>) = getActiveMaxFloatingBubbles s"
  "getActiveMaxFloatingBubbles (s\<lparr>activeTextBubble := b\<rparr>) = getActiveMaxFloatingBubbles s"
  "getActiveMaxFloatingBubbles (s\<lparr>nextBubbleSpawnMs := c\<rparr>) = getActiveMaxFloatingBubbles s"
  "getActiveMaxFloatingBubbles (s\<lparr>nextBubbleId := d\<rparr>) = getActiveMaxFloatingBubbles s"
  "getActiveMaxFloatingBubbles (s\<lparr>lastBubbleTickMs := e\<rparr>) = getActiveMaxFloatingBubbles s"
  by (simp_all add: getActiveMaxFloatingBubbles_def)

lemma reset_inv [simp]:
  "idsOk (resetFloatingBubbles r now s)" "openOk (resetFloatingBubbles r now s)"
  "livesOk (resetFloatingBubbles r now s)" "capOk (resetFloatingBubbles r now s)"
  "clearOk (resetFloatingBubbles r now s)"
  "bridgesOff (resetFloatingBubbles r now s) = bridgesOff s"
  by (simp_all add: inv_defs resetFloatingBubbles_def)

lemma schedule_inv [simp]:
  "idsOk (scheduleNextBubble now r s) = idsOk s" "openOk (scheduleNextBubble now r s) = openOk s"
  "livesOk (scheduleNextBubble now r s) = livesOk s" "capOk (scheduleNextBubble now r s) = capOk s"
  "clearOk (scheduleNextBubble now r s) = clearOk s"
  "bridgesOff (scheduleNextBubble now r s) = bridgesOff s"
  by (simp_all add: inv_defs scheduleNextBubble_def Let_def)

lemma bid_comp [simp]:
  "bid \<circ> (\<lambda>e. if P e then e\<lparr>isOpen := a e, spawnMs := b e\<rparr> else e) = bid"
  "bid \<circ> (\<lambda>e. if P e then e\<lparr>revealUntilMs := c e, isOpen := a e\<rparr> else e) = bid"
  by (rule ext, simp)+

lemma dissipate_inv:
  "idsOk s \<Longrightarrow> idsOk (dissipateBubble b now s)"
  "openOk s \<Longrightarrow> openOk (dissipateBubble b now s)"
  "livesOk s \<Longrightarrow> livesOk (dissipateBubble b now s)"
  "capOk s \<Longrightarrow> capOk (dissipateBubble b now s)"
  "clearOk s \<Longrightarrow> clearOk (dissipateBubble b now s)"
  "bridgesOff (dissipateBubble b now s) = bridgesOff s"
  by (auto simp: inv_defs dissipateBubble_def)

lemma dissipate_fields [simp]:
  "performanceLevel (dissipateBubble b now s) = performanceLevel s"
  "isMobileLike (dissipateBubble b now s) = isMobileLike s"
  "nextBubbleId (dissipateBubble b now s) = nextBubbleId s"
  "bubbleLayer (dissipateBubble b now s) = bubbleLayer s"
  "bubblesEnabledForModel (dissipateBubble b now s) = bubblesEnabledForModel s"
  "length (floatingBubbles (dissipateBubble b now s)) = length (floatingBubbles s)"
  by (simp_all add: dissipateBubble_def)

lemma clear_active_inv:
  "idsOk (s\<lparr>activeTextBubble := a\<rparr>) = idsOk s"
  "livesOk (s\<lparr>activeTextBubble := a\<rparr>) = livesOk s"
  "capOk (s\<lparr>activeTextBubble := a\<rparr>) = capOk s"
  "clearOk (s\<lparr>activeTextBubble := a\<rparr>) = clearOk s"
  "bridgesOff (s\<lparr>activeTextBubble := a\<rparr>) = bridgesOff s"
  by (simp_all add: inv_defs)

lemma dissipate_active_openOk:
  "openOk s \<Longrightarrow> activeTextBubble s = Some a
     \<Longrightarrow> openOk ((dissipateBubble a now s)\<lparr>activeTextBubble := None\<rparr>)"
  by (auto simp: inv_defs dissipateBubble_def)

lemma dismiss_inv:
  "idsOk s \<Longrightarrow> idsOk (dismissActiveTextBubble n1 n2 r s)"
  "openOk s \<Longrightarrow> openOk (dismissActiveTextBubble n1 n2 r s)"
  "livesOk s \<Longrightarrow> livesOk (dismissActiveTextBubble n1 n2 r s)"
  "capOk s \<Longrightarrow> capOk (dismissActiveTextBubble n1 n2 r s)"
  "clearOk s \<Longrightarrow> clearOk (dismissActiveTextBubble n1 n2 r s)"
  "bridgesOff (dismissActiveTextBubble n1 n2 r s) = bridgesOff s"
  by (auto simp: dismissActiveTextBubble_def Let_def clear_active_inv dissipate_inv
      dissipate_active_openOk split: option.splits)

lemma dissipatePrevious_inv:
  "idsOk s \<Longrightarrow> idsOk (dissipatePrevious b now s)"
  "livesOk s \<Longrightarrow> livesOk (dissipatePrevious b now s)"
  "capOk s \<Longrightarrow> capOk (dissipatePrevious b now s)"
  "clearOk s \<Longrightarrow> clearOk (dissipatePrevious b now s)"
  "bridgesOff (dissipatePrevious b now s) = bridgesOff s"
  by (auto simp: dissipatePrevious_def clear_active_inv dissipate_inv split: option.splits)

lemma dissipatePrevious_open:
  assumes "openOk s" "e \<in> set (floatingBubbles (dissipatePrevious b now s))" "isOpen e"
  shows "bid e = b"
  using assms
  by (auto simp: dissipatePrevious_def openOk_def dissipateBubble_def
      split: option.splits if_splits)

lemma makeActive_inv:
  "idsOk s \<Longrightarrow> idsOk (makeActive b s)"
  "livesOk s \<Longrightarrow> livesOk (makeActive b s)"
  "capOk s \<Longrightarrow> capOk (makeActive b s)"
  "clearOk s \<Longrightarrow> clearOk (makeActive b s)"
  "bridgesOff (makeActive b s) = bridgesOff s"
  "activeTextBubble (makeActive b s) = Some b"
  by (auto simp: inv_defs makeActive_def)

lemma makeActive_open:
  assumes "\<forall>e\<in>set (floatingBubbles s). isOpen e \<longrightarrow> bid e = b"
  shows "openOk (makeActive b s)"
  using assms by (auto simp: openOk_def makeActive_def)

lemma dissipate_other_open:
  "openOk s \<Longrightarrow> activeTextBubble s = Some b \<Longrightarrow> other \<noteq> b
     \<Longrightarrow> openOk (dissipateBubble other now s) \<and> activeTextBubble (dissipateBubble other now s) = Some b"
  by (auto simp: openOk_def dissipateBubble_def)

lemma dissipateOthers_inv:
  "idsOk s \<Longrightarrow> idsOk (dissipateOthers b now s)"
  "livesOk s \<Longrightarrow> livesOk (dissipateOthers b now s)"
  "capOk s \<Longrightarrow> capOk (dissipateOthers b now s)"
  "clearOk s \<Longrightarrow> clearOk (dissipateOthers b now s)"
  "bridgesOff s \<Longrightarrow> bridgesOff (dissipateOthers b now s)"
  unfolding dissipateOthers_def
  by (rule foldl_inv; simp add: dissipate_inv)+

lemma dissipateOthers_open:
  assumes "openOk s" "activeTextBubble s = Some b"
  shows "openOk (dissipateOthers b now s) \<and> activeTextBubble (dissipateOthers b now s) = Some b"
  unfolding dissipateOthers_def
  by (rule foldl_inv) (use assms in \<open>auto simp: dissipate_other_open\<close>)

lemma next_inv:
  "idsOk (s\<lparr>nextBubbleSpawnMs := a\<rparr>) = idsOk s"
  "openOk (s\<lparr>nextBubbleSpawnMs := a\<rparr>) = openOk s"
  "livesOk (s\<lparr>nextBubbleSpawnMs := a\<rparr>) = livesOk s"
  "capOk (s\<lparr>nextBubbleSpawnMs := a\<rparr>) = capOk s"
  "clearOk (s\<lparr>nextBubbleSpawnMs := a\<rparr>) = clearOk s"
  "bridgesOff (s\<lparr>nextBubbleSpawnMs := a\<rparr>) = bridgesOff s"
  by (simp_all add: inv_defs)

lemma activate_inv:
  "idsOk s \<Longrightarrow> idsOk (activateTextBubble b now s)"
  "livesOk s \<Longrightarrow> livesOk (activateTextBubble b now s)"
  "capOk s \<Longrightarrow> capOk (activateTextBubble b now s)"
  "clearOk s \<Longrightarrow> clearOk (activateTextBubble b now s)"
  "bridgesOff s \<Longrightarrow> bridgesOff (activateTextBubble b now s)"
  by (simp_all add: activateTextBubble_def next_inv dissipateOthers_inv makeActive_inv
      dissipatePrevious_inv)

lemma activate_open:
  assumes "openOk s"
  shows "openOk (activateTextBubble b now s)"
proof -
  have "openOk (makeActive b (dissipatePrevious b now s))"
    by (rule makeActive_open) (use assms dissipatePrevious_open in blast)
  then show ?thesis
    by (simp add: activateTextBubble_def next_inv dissipateOthers_open makeActive_inv)
qed

lemma in_set_tl: "x \<in> set (tl xs) \<Longrightarrow> x \<in> set xs"
  by (cases xs) simp_all

lemma spawn_unfold:
  "spawnFloatingBubble f s = s \<or>
   (\<exists>new. bid new = nextBubbleId s \<and> \<not> isOpen new \<and> \<not> overModel new
       \<and> lifeMs new = 3400 + f_rndLife f * (5600 - 3400)
       \<and> spawnFloatingBubble f s = evictWhenOver (pushed new s))"
proof (cases "bubbleLayer s")
  case False
  then show ?thesis by (simp add: spawnFloatingBubble_def)
next
  case True
  show ?thesis
    apply (rule disjI2)
    apply (simp only: spawnFloatingBubble_def Let_def True not_True_eq_False if_False
        evictWhenOver_def pushed_def)
    apply (rule exI, intro conjI)
        prefer 5
        apply (rule refl)
       apply simp_all
    done
qed

lemma pushed_inv:
  "idsOk s \<Longrightarrow> bid new = nextBubbleId s \<Longrightarrow> idsOk (pushed new s)"
  "openOk s \<Longrightarrow> \<not> isOpen new \<Longrightarrow> openOk (pushed new s)"
  "clearOk s \<Longrightarrow> \<not> overModel new \<Longrightarrow> clearOk (pushed new s)"
  "livesOk s \<Longrightarrow> 0 < lifeMs new \<Longrightarrow> livesOk (pushed new s)"
  "bridgesOff (pushed new s) = bridgesOff s"
  by (auto simp: inv_defs pushed_def dest: less_SucI)

lemma evict_inv:
  "idsOk s \<Longrightarrow> idsOk (evictWhenOver s)"
  "openOk s \<Longrightarrow> openOk (evictWhenOver s)"
  "clearOk s \<Longrightarrow> clearOk (evictWhenOver s)"
  "livesOk s \<Longrightarrow> livesOk (evictWhenOver s)"
  "bridgesOff (evictWhenOver s) = bridgesOff s"
  by (auto simp: inv_defs evictWhenOver_def distinct_tl map_tl dest!: in_set_tl)

lemma push_evict_cap: "capOk s \<Longrightarrow> capOk (evictWhenOver (pushed new s))"
  by (auto simp: capOk_def evictWhenOver_def pushed_def)

lemma spawn_inv:
  "idsOk s \<Longrightarrow> idsOk (spawnFloatingBubble f s)"
  "openOk s \<Longrightarrow> openOk (spawnFloatingBubble f s)"
  "capOk s \<Longrightarrow> capOk (spawnFloatingBubble f s)"
  "clearOk s \<Longrightarrow> clearOk (spawnFloatingBubble f s)"
  "bridgesOff s \<Longrightarrow> bridgesOff (spawnFloatingBubble f s)"
  using spawn_unfold[of f s]
  by (auto simp: pushed_inv evict_inv push_evict_cap)

lemma spawn_lives:
  "livesOk s \<Longrightarrow> 0 \<le> f_rndLife f \<Longrightarrow> livesOk (spawnFloatingBubble f s)"
  using spawn_unfold[of f s]
  by (auto simp: pushed_inv evict_inv add_pos_nonneg)

lemma map_filter_set:
  "e' \<in> set (List.map_filter g xs) \<Longrightarrow> \<exists>e\<in>set xs. g e = Some e'"
  by (auto simp: List.map_filter_def)

lemma map_filter_length: "length (List.map_filter g xs) \<le> length xs"
  by (simp add: List.map_filter_def)

lemma map_filter_distinct:
  assumes "distinct (map bid xs)" "\<And>e e'. g e = Some e' \<Longrightarrow> bid e' = bid e"
  shows "distinct (map bid (List.map_filter g xs))"
  using assms(1)
proof (induction xs)
  case Nil
  then show ?case by (simp add: List.map_filter_def)
next
  case (Cons x xs)
  show ?case
  proof (cases "g x")
    case None
    then show ?thesis using Cons by simp
  next
    case (Some y)
    have "bid y \<notin> bid ` set (List.map_filter g xs)"
    proof
      assume "bid y \<in> bid ` set (List.map_filter g xs)"
      then obtain e' where "e' \<in> set (List.map_filter g xs)" "bid e' = bid y" by auto
      then obtain e where "e \<in> set xs" "g e = Some e'" using map_filter_set by metis
      then have "bid e = bid x" using assms(2) Some \<open>bid e' = bid y\<close> by metis
      then show False using Cons.prems \<open>e \<in> set xs\<close> by (force simp: image_iff)
    qed
    then show ?thesis using Cons Some by simp
  qed
qed

lemma loop_inv:
  "idsOk s \<Longrightarrow> idsOk (loopBody f s)"
  "openOk s \<Longrightarrow> openOk (loopBody f s)"
  "livesOk s \<Longrightarrow> livesOk (loopBody f s)"
  "capOk s \<Longrightarrow> capOk (loopBody f s)"
  "bridgesOff (loopBody f s) = bridgesOff s"
proof -
  show "idsOk s \<Longrightarrow> idsOk (loopBody f s)"
    unfolding idsOk_def loopBody_def
    by (auto intro: map_filter_distinct updateBubble_keeps(1) dest!: map_filter_set
        simp: updateBubble_keeps(1))
  show "openOk s \<Longrightarrow> openOk (loopBody f s)"
    unfolding openOk_def loopBody_def
    by (auto dest!: map_filter_set simp: updateBubble_keeps(1) dest: updateBubble_keeps(5))
  show "livesOk s \<Longrightarrow> livesOk (loopBody f s)"
    unfolding livesOk_def loopBody_def
    by (auto dest!: map_filter_set simp: updateBubble_keeps(2))
  show "capOk s \<Longrightarrow> capOk (loopBody f s)"
    unfolding capOk_def loopBody_def
    using map_filter_length[of "updateBubble f s" "floatingBubbles s"] by simp
  show "bridgesOff (loopBody f s) = bridgesOff s"
    by (simp add: bridgesOff_def loopBody_def)
qed

lemma tickfield_inv:
  "idsOk (s\<lparr>lastBubbleTickMs := a\<rparr>) = idsOk s"
  "openOk (s\<lparr>lastBubbleTickMs := a\<rparr>) = openOk s"
  "livesOk (s\<lparr>lastBubbleTickMs := a\<rparr>) = livesOk s"
  "capOk (s\<lparr>lastBubbleTickMs := a\<rparr>) = capOk s"
  "clearOk (s\<lparr>lastBubbleTickMs := a\<rparr>) = clearOk s"
  "bridgesOff (s\<lparr>lastBubbleTickMs := a\<rparr>) = bridgesOff s"
  by (simp_all add: inv_defs)

lemma updateFloatingBubbles_unfold:
  "updateFloatingBubbles f s = s \<or>
   updateFloatingBubbles f s = loopBody f (s\<lparr>lastBubbleTickMs := f_nowMs f\<rparr>) \<or>
   updateFloatingBubbles f s = loopBody f (scheduleNextBubble (f_nowMs f) (f_rndGap f)
       (spawnFloatingBubble f (s\<lparr>lastBubbleTickMs := f_nowMs f\<rparr>)))"
  by (auto simp: updateFloatingBubbles_def loopBody_def Let_def List.map_filter_def)

lemma updateFloatingBubbles_inv:
  "idsOk s \<Longrightarrow> idsOk (updateFloatingBubbles f s)"
  "openOk s \<Longrightarrow> openOk (updateFloatingBubbles f s)"
  "capOk s \<Longrightarrow> capOk (updateFloatingBubbles f s)"
  "bridgesOff s \<Longrightarrow> bridgesOff (updateFloatingBubbles f s)"
  using updateFloatingBubbles_unfold[of f s]
  by (auto simp: loop_inv spawn_inv tickfield_inv)

lemma updateFloatingBubbles_lives:
  "livesOk s \<Longrightarrow> 0 \<le> f_rndLife f \<Longrightarrow> livesOk (updateFloatingBubbles f s)"
  using updateFloatingBubbles_unfold[of f s]
  by (auto simp: loop_inv spawn_lives tickfield_inv)

lemma shift_suffix: "\<exists>ys. xs = ys @ shiftWhileOver n xs"
proof (induction xs)
  case Nil
  then show ?case by simp
next
  case (Cons x xs)
  then obtain ys where ys: "xs = ys @ shiftWhileOver n xs" by blast
  show ?case
  proof (cases "n < length (x # xs)")
    case True
    then have "x # xs = (x # ys) @ shiftWhileOver n (x # xs)" using ys by simp
    then show ?thesis by blast
  next
    case False
    then have "x # xs = [] @ shiftWhileOver n (x # xs)" by simp
    then show ?thesis by blast
  qed
qed

lemma shift_length: "length (shiftWhileOver n xs) \<le> n"
  by (induction xs) auto

lemma shift_set: "e \<in> set (shiftWhileOver n xs) \<Longrightarrow> e \<in> set xs"
  using shift_suffix[of xs n] by (metis Un_iff set_append)

lemma shift_distinct: "distinct (map g xs) \<Longrightarrow> distinct (map g (shiftWhileOver n xs))"
  using shift_suffix[of xs n] by (metis distinct_append map_append)

lemma setPerformanceLevel_inv:
  "idsOk s \<Longrightarrow> idsOk (setPerformanceLevel l s)"
  "openOk s \<Longrightarrow> openOk (setPerformanceLevel l s)"
  "livesOk s \<Longrightarrow> livesOk (setPerformanceLevel l s)"
  "clearOk s \<Longrightarrow> clearOk (setPerformanceLevel l s)"
  "bridgesOff (setPerformanceLevel l s) = bridgesOff s"
  by (auto simp: inv_defs setPerformanceLevel_def Let_def shift_distinct dest!: shift_set)

lemma setPerformanceLevel_cap: "capOk s \<Longrightarrow> capOk (setPerformanceLevel l s)"
  by (simp add: capOk_def setPerformanceLevel_def Let_def shift_length)

lemma setPerformanceLevel_cap_changed:
  "performanceLevel s \<noteq> l \<Longrightarrow> capOk (setPerformanceLevel l s)"
  by (simp add: capOk_def setPerformanceLevel_def Let_def shift_length)

lemma setFloatingBubbles_inv [simp]:
  "idsOk (setFloatingBubbles layer ms now s)" "openOk (setFloatingBubbles layer ms now s)"
  "livesOk (setFloatingBubbles layer ms now s)" "capOk (setFloatingBubbles layer ms now s)"
  "clearOk (setFloatingBubbles layer ms now s)"
  "bridgesOff (setFloatingBubbles layer ms now s) = bridgesOff s"
  by (simp_all add: inv_defs setFloatingBubbles_def resetFloatingBubbles_def Let_def)

lemma clickBubble_inv:
  "idsOk s \<Longrightarrow> idsOk (clickBubble b now s)"
  "openOk s \<Longrightarrow> openOk (clickBubble b now s)"
  "livesOk s \<Longrightarrow> livesOk (clickBubble b now s)"
  "capOk s \<Longrightarrow> capOk (clickBubble b now s)"
  "clearOk s \<Longrightarrow> clearOk (clickBubble b now s)"
  "bridgesOff s \<Longrightarrow> bridgesOff (clickBubble b now s)"
  by (auto simp: clickBubble_def activate_inv activate_open dissipate_inv split: option.splits)

lemma pointerDown_inv:
  "idsOk s \<Longrightarrow> idsOk (onDocumentPointerDown i n1 n2 r s)"
  "openOk s \<Longrightarrow> openOk (onDocumentPointerDown i n1 n2 r s)"
  "livesOk s \<Longrightarrow> livesOk (onDocumentPointerDown i n1 n2 r s)"
  "capOk s \<Longrightarrow> capOk (onDocumentPointerDown i n1 n2 r s)"
  "clearOk s \<Longrightarrow> clearOk (onDocumentPointerDown i n1 n2 r s)"
  "bridgesOff s \<Longrightarrow> bridgesOff (onDocumentPointerDown i n1 n2 r s)"
  by (auto simp: onDocumentPointerDown_def dismiss_inv split: option.splits)

lemma anim_inv:
  assumes "floatingBubbles s' = floatingBubbles s" "activeTextBubble s' = activeTextBubble s"
    "nextBubbleId s' = nextBubbleId s" "performanceLevel s' = performanceLevel s"
    "isMobileLike s' = isMobileLike s"
  shows "idsOk s' = idsOk s" "openOk s' = openOk s" "livesOk s' = livesOk s"
    "capOk s' = capOk s" "clearOk s' = clearOk s"
  using assms cap_cong[of s' s] by (simp_all add: inv_defs)

lemmas tick_inv = anim_inv[of "updateAnimationUniforms now s" s for now s, simplified]

lemmas style_inv = anim_inv[of "applyAnimationStyle r s" s for r s, simplified]

lemmas setAnimation_inv = anim_inv[of "setAnimation mode n1 n2 n3 s" s for mode n1 n2 n3 s, simplified]

lemma empty_inv:
  assumes "floatingBubbles s = []"
  shows "idsOk s" "openOk s" "livesOk s" "capOk s" "clearOk s"
  using assms by (simp_all add: inv_defs)

lemma loadBegin_inv:
  "idsOk s \<Longrightarrow> idsOk (loadBegin s)" "openOk s \<Longrightarrow> openOk (loadBegin s)"
  "livesOk s \<Longrightarrow> livesOk (loadBegin s)" "capOk s \<Longrightarrow> capOk (loadBegin s)"
  "clearOk s \<Longrightarrow> clearOk (loadBegin s)" "bridgesOff s \<Longrightarrow> bridgesOff (loadBegin s)"
  by (auto simp: loadBegin_def resetFloatingBubbles_def intro!: empty_inv simp: bridgesOff_def)

lemma dispose_inv:
  "idsOk s \<Longrightarrow> idsOk (dispose s)" "openOk s \<Longrightarrow> openOk (dispose s)"
  "livesOk s \<Longrightarrow> livesOk (dispose s)" "capOk s \<Longrightarrow> capOk (dispose s)"
  "clearOk s \<Longrightarrow> clearOk (dispose s)" "bridgesOff s \<Longrightarrow> bridgesOff (dispose s)"
  by (auto simp: dispose_def resetFloatingBubbles_def intro!: empty_inv simp: bridgesOff_def)

lemma loadComplete_bubbles:
  "(floatingBubbles (loadComplete v out r n1 n2 n3 n4 s) = floatingBubbles s
      \<and> activeTextBubble (loadComplete v out r n1 n2 n3 n4 s) = activeTextBubble s
      \<and> nextBubbleId (loadComplete v out r n1 n2 n3 n4 s) = nextBubbleId s
      \<and> performanceLevel (loadComplete v out r n1 n2 n3 n4 s) = performanceLevel s
      \<and> isMobileLike (loadComplete v out r n1 n2 n3 n4 s) = isMobileLike s)
   \<or> floatingBubbles (loadComplete v out r n1 n2 n3 n4 s) = []"
  by (simp add: loadComplete_def Let_def resetFloatingBubbles_def)

lemma loadComplete_inv:
  "idsOk s \<Longrightarrow> idsOk (loadComplete v out r n1 n2 n3 n4 s)"
  "openOk s \<Longrightarrow> openOk (loadComplete v out r n1 n2 n3 n4 s)"
  "livesOk s \<Longrightarrow> livesOk (loadComplete v out r n1 n2 n3 n4 s)"
  "capOk s \<Longrightarrow> capOk (loadComplete v out r n1 n2 n3 n4 s)"
  "clearOk s \<Longrightarrow> clearOk (loadComplete v out r n1 n2 n3 n4 s)"
proof -
  define s' where "s' = loadComplete v out r n1 n2 n3 n4 s"
  consider "floatingBubbles s' = floatingBubbles s \<and> activeTextBubble s' = activeTextBubble s
       \<and> nextBubbleId s' = nextBubbleId s \<and> performanceLevel s' = performanceLevel s
       \<and> isMobileLike s' = isMobileLike s"
    | "floatingBubbles s' = []"
    using loadComplete_bubbles[of v out r n1 n2 n3 n4 s] unfolding s'_def by blast
  then have "(idsOk s \<longrightarrow> idsOk s') \<and> (openOk s \<longrightarrow> openOk s') \<and> (livesOk s \<longrightarrow> livesOk s')
           \<and> (capOk s \<longrightarrow> capOk s') \<and> (clearOk s \<longrightarrow> clearOk s')"
  proof cases
    case 1
    then show ?thesis using anim_inv[of s' s] by blast
  next
    case 2
    then show ?thesis using empty_inv[of s'] by blast
  qed
  then show "idsOk s \<Longrightarrow> idsOk (loadComplete v out r n1 n2 n3 n4 s)"
    "openOk s \<Longrightarrow> openOk (loadComplete v out r n1 n2 n3 n4 s)"
    "livesOk s \<Longrightarrow> livesOk (loadComplete v out r n1 n2 n3 n4 s)"
    "capOk s \<Longrightarrow> capOk (loadComplete v out r n1 n2 n3 n4 s)"
    "clearOk s \<Longrightarrow> clearOk (loadComplete v out r n1 n2 n3 n4 s)"
    unfolding s'_def by blast+
qed

lemma loadComplete_bridgesOff:
  assumes "bridgesOff s"
  shows "bridgesOff (loadComplete v out r n1 n2 n3 n4 s)"
proof -
  have *: "\<And>x. bridgesOff x \<Longrightarrow> bridgesOff (updateAnimationUniforms n4 (applyAnimationStyle True x))"
    by (rule tick_bridgesOff) (simp add: bridgesOff_def)
  show ?thesis
  proof (cases "disposed s \<or> v \<noteq> loadVersion s")
    case True
    then show ?thesis using assms by (simp add: loadComplete_def)
  next
    case c1: False
    show ?thesis
    proof (cases "out = AnchorsMissing")
      case True
      then show ?thesis using assms c1 by (simp add: loadComplete_def Let_def bridgesOff_def)
    next
      case c2: False
      have e1: "(disposed s \<or> v \<noteq> loadVersion s) = False" using c1 by simp
      have e2: "(out = AnchorsMissing) = False" using c2 by simp
      show ?thesis
        unfolding loadComplete_def Let_def
        apply (simp only: e1 e2 if_False)
        apply (rule *)
        apply (simp add: bridgesOff_def resetFloatingBubbles_def)
        done
    qed
  qed
qed

lemma update_inv:
  "idsOk s \<Longrightarrow> idsOk (update now f s)"
  "openOk s \<Longrightarrow> openOk (update now f s)"
  "capOk s \<Longrightarrow> capOk (update now f s)"
  "bridgesOff s \<Longrightarrow> bridgesOff (update now f s)"
  by (auto simp: update_def updateFloatingBubbles_inv tick_inv tick_bridgesOff)

lemma update_lives:
  "livesOk s \<Longrightarrow> 0 \<le> f_rndLife f \<Longrightarrow> livesOk (update now f s)"
  by (auto simp: update_def updateFloatingBubbles_lives tick_inv)

subsection \<open>The invariants along a session\<close>

lemma step_inv:
  "idsOk s \<Longrightarrow> idsOk (step s ev)"
  "openOk s \<Longrightarrow> openOk (step s ev)"
  "capOk s \<Longrightarrow> capOk (step s ev)"
  "bridgesOff s \<Longrightarrow> bridgesOff (step s ev)"
  by (cases ev; simp add: loadBegin_inv loadComplete_inv loadComplete_bridgesOff setAnimation_inv
      setAnimation_bridgesOff setPerformanceLevel_inv setPerformanceLevel_cap update_inv
      clickBubble_inv pointerDown_inv dispose_inv)+

lemma new_inv:
  "idsOk (newSplatViewer m n1 n2)" "openOk (newSplatViewer m n1 n2)"
  "capOk (newSplatViewer m n1 n2)" "livesOk (newSplatViewer m n1 n2)"
  "clearOk (newSplatViewer m n1 n2)" "bridgesOff (newSplatViewer m n1 n2)"
  by (simp_all add: inv_defs newSplatViewer_def)

lemma run_inv:
  "idsOk s \<Longrightarrow> idsOk (run s evs)"
  "openOk s \<Longrightarrow> openOk (run s evs)"
  "capOk s \<Longrightarrow> capOk (run s evs)"
  "bridgesOff s \<Longrightarrow> bridgesOff (run s evs)"
  unfolding run_def by (rule foldl_inv; simp add: step_inv)+

lemma step_lives:
  "livesOk s \<Longrightarrow> drawsInRange ev \<Longrightarrow> livesOk (step s ev)"
  by (cases ev; simp add: loadBegin_inv loadComplete_inv setAnimation_inv
      setPerformanceLevel_inv update_lives clickBubble_inv pointerDown_inv dispose_inv unitDraw_def)

lemma run_lives:
  "livesOk s \<Longrightarrow> list_all drawsInRange evs \<Longrightarrow> livesOk (run s evs)"
  unfolding run_def by (induction evs arbitrary: s) (simp_all add: step_lives)

subsection \<open>A failing readback\<close>

lemma readRenderAlpha_throws:
  "\<forall>x y. readPixels g x y = Throws \<Longrightarrow> readRenderAlpha g sx sy = 0"
  by (simp add: readRenderAlpha_def Let_def)

lemma anySample_throws:
  "\<forall>x y. readPixels g x y = Throws \<Longrightarrow> anySampleCovered g bx by offs = False"
  by (induction offs) (auto simp: readRenderAlpha_throws)

lemma covered_fails:
  "probeFails glOpt \<Longrightarrow> isModelPixelCovered glOpt level mobile w h sx sy r = False"
  by (auto simp: probeFails_def isModelPixelCovered_def Let_def anySample_throws split: option.splits)

lemma probeWhenDue_clear:
  "probeFails (f_gl f) \<Longrightarrow> \<not> overModel e \<Longrightarrow> \<not> overModel (probeWhenDue f s px py e)"
  by (simp add: probeWhenDue_def covered_fails)

lemma showBubble_clear:
  "probeFails (f_gl f) \<Longrightarrow> \<not> overModel e \<Longrightarrow> \<not> overModel (showBubble f s a x y e)"
  by (simp add: showBubble_def Let_def probeWhenDue_clear)

lemma updateBubble_clear:
  assumes "updateBubble f s e = Some e'" "probeFails (f_gl f)" "\<not> overModel e"
  shows "\<not> overModel e'"
  using assms by (auto elim!: updateBubble_cases simp: showBubble_clear)

lemma loop_clear:
  "clearOk s \<Longrightarrow> probeFails (f_gl f) \<Longrightarrow> clearOk (loopBody f s)"
  unfolding clearOk_def loopBody_def
  by (auto dest!: map_filter_set dest: updateBubble_clear)

lemma updateFloatingBubbles_clear:
  "clearOk s \<Longrightarrow> probeFails (f_gl f) \<Longrightarrow> clearOk (updateFloatingBubbles f s)"
  using updateFloatingBubbles_unfold[of f s]
  by (auto simp: loop_clear spawn_inv tickfield_inv)

lemma step_clear:
  "clearOk s \<Longrightarrow> probeFailsIn ev \<Longrightarrow> clearOk (step s ev)"
  by (cases ev; simp add: loadBegin_inv loadComplete_inv setAnimation_inv
      setPerformanceLevel_inv clickBubble_inv pointerDown_inv dispose_inv
      update_def updateFloatingBubbles_clear tick_inv)

lemma run_clear:
  "clearOk s \<Longrightarrow> list_all probeFailsIn evs \<Longrightarrow> clearOk (run s evs)"
  unfolding run_def by (induction evs arbitrary: s) (simp_all add: step_clear)

subsection \<open>Activation\<close>

lemma filter_bid_once:
  "distinct (map bid xs) \<Longrightarrow> length (filter (\<lambda>e. bid e = a) xs) \<le> 1"
  by (induction xs) (auto simp: filter_empty_conv image_iff)

lemma dissipated_is_dissipating:
  "0 < lifeMs e \<Longrightarrow> dissipating now (e\<lparr>isOpen := False, spawnMs := now - lifeMs e - 1\<rparr>)"
  by (simp add: dissipating_def field_simps)

lemma dissipate_marks:
  assumes "livesOk s" "e \<in> set (floatingBubbles (dissipateBubble a now s))" "bid e = a"
  shows "dissipating now e \<and> \<not> isOpen e"
proof -
  from assms(2) obtain e0 where e0: "e0 \<in> set (floatingBubbles s)"
    and e: "e = (if bid e0 = a then e0\<lparr>isOpen := False, spawnMs := now - lifeMs e0 - 1\<rparr> else e0)"
    by (auto simp: dissipateBubble_def)
  have "bid e0 = a" using e assms(3) by (simp split: if_splits)
  then have e': "e = e0\<lparr>isOpen := False, spawnMs := now - lifeMs e0 - 1\<rparr>" using e by simp
  have "0 < lifeMs e0" using assms(1) e0 by (simp add: livesOk_def)
  then show ?thesis unfolding e' using dissipated_is_dissipating by simp
qed

lemma dissipatePrevious_effect:
  assumes "activeTextBubble s = Some a" "a \<noteq> b" "livesOk s"
  shows "activeTextBubble (dissipatePrevious b now s) = None"
    and "\<forall>e\<in>set (floatingBubbles (dissipatePrevious b now s)). bid e = a \<longrightarrow> dissipating now e \<and> \<not> isOpen e"
proof -
  have u: "dissipatePrevious b now s = (dissipateBubble a now s)\<lparr>activeTextBubble := None\<rparr>"
    using assms(1,2) by (simp add: dissipatePrevious_def)
  show "activeTextBubble (dissipatePrevious b now s) = None" unfolding u by simp
  show "\<forall>e\<in>set (floatingBubbles (dissipatePrevious b now s)). bid e = a \<longrightarrow> dissipating now e \<and> \<not> isOpen e"
    unfolding u using dissipate_marks[OF assms(3)] by simp
qed

lemma dissip_keeps:
  assumes "\<forall>e\<in>set (floatingBubbles s). bid e = a \<longrightarrow> dissipating now e" "livesOk s"
  shows "(\<forall>e\<in>set (floatingBubbles (dissipateBubble o' now s)). bid e = a \<longrightarrow> dissipating now e)
       \<and> livesOk (dissipateBubble o' now s)"
proof (intro conjI ballI impI)
  show "livesOk (dissipateBubble o' now s)" by (rule dissipate_inv) (rule assms(2))
next
  fix e assume h: "e \<in> set (floatingBubbles (dissipateBubble o' now s))" "bid e = a"
  from h(1) obtain e0 where e0: "e0 \<in> set (floatingBubbles s)"
    and e: "e = (if bid e0 = o' then e0\<lparr>isOpen := False, spawnMs := now - lifeMs e0 - 1\<rparr> else e0)"
    by (auto simp: dissipateBubble_def)
  show "dissipating now e"
  proof (cases "bid e0 = o'")
    case True
    have "0 < lifeMs e0" using assms(2) e0 by (simp add: livesOk_def)
    then show ?thesis using e True dissipated_is_dissipating by simp
  next
    case False
    then show ?thesis using e e0 h(2) assms(1) by simp
  qed
qed

lemma activate_effect:
  assumes "activeTextBubble s = Some a" "a \<noteq> b" "livesOk s" "openOk s"
  shows "activeTextBubble (activateTextBubble b now s) = Some b"
    and "\<forall>e\<in>set (floatingBubbles (activateTextBubble b now s)). bid e = a \<longrightarrow> dissipating now e"
proof -
  define s1 where "s1 = dissipatePrevious b now s"
  define s2 where "s2 = makeActive b s1"
  have o2: "openOk s2" unfolding s2_def s1_def
    by (rule makeActive_open) (use assms(4) dissipatePrevious_open in blast)
  have a2: "activeTextBubble s2 = Some b" by (simp add: s2_def makeActive_inv)
  from dissipateOthers_open[OF o2 a2]
  show "activeTextBubble (activateTextBubble b now s) = Some b"
    by (simp add: activateTextBubble_def s2_def s1_def)
  have d1: "\<forall>e\<in>set (floatingBubbles s1). bid e = a \<longrightarrow> dissipating now e"
    using dissipatePrevious_effect(2)[OF assms(1-3)] unfolding s1_def by blast
  have l1: "livesOk s1" unfolding s1_def by (rule dissipatePrevious_inv) (rule assms(3))
  have d2: "\<forall>e\<in>set (floatingBubbles s2). bid e = a \<longrightarrow> dissipating now e"
    using d1 assms(2) by (auto simp: s2_def makeActive_def dissipating_def)
  have l2: "livesOk s2" unfolding s2_def by (rule makeActive_inv) (rule l1)
  have "(\<forall>e\<in>set (floatingBubbles (dissipateOthers b now s2)). bid e = a \<longrightarrow> dissipating now e)
        \<and> livesOk (dissipateOthers b now s2)"
    unfolding dissipateOthers_def
    by (rule foldl_inv) (use d2 l2 dissip_keeps in \<open>auto\<close>)
  then show "\<forall>e\<in>set (floatingBubbles (activateTextBubble b now s)). bid e = a \<longrightarrow> dissipating now e"
    by (simp add: activateTextBubble_def s2_def s1_def)
qed

subsection \<open>The throttle of the probe\<close>

lemma probeWhenDue_idle:
  "f_nowMs f - lastOverlapCheckMs e < activeOverlapCheckInterval s \<Longrightarrow> probeWhenDue f s px py e = e"
  by (simp add: probeWhenDue_def)

lemma showBubble_idle:
  assumes "f_nowMs f - lastOverlapCheckMs e < activeOverlapCheckInterval s"
  shows "overModel (showBubble f s a x y e) = overModel e
       \<and> lastOverlapCheckMs (showBubble f s a x y e) = lastOverlapCheckMs e"
proof -
  have "\<And>px py. probeWhenDue f s px py (e\<lparr>screenX := px, screenY := py\<rparr>)
                  = e\<lparr>screenX := px, screenY := py\<rparr>"
    by (rule probeWhenDue_idle) (simp add: assms)
  then show ?thesis by (simp add: showBubble_def Let_def)
qed

lemma probe_throttle:
  assumes "updateBubble f s e = Some e'"
    and "f_nowMs f - lastOverlapCheckMs e < activeOverlapCheckInterval s"
  shows "overModel e' = overModel e \<and> lastOverlapCheckMs e' = lastOverlapCheckMs e"
  using assms(1)
proof (rule updateBubble_cases)
  assume "e' = closeWhenDue (f_nowMs f) s (e\<lparr>lastUpdateMs := f_nowMs f\<rparr>)"
  then show ?thesis by simp
next
  fix a x y assume "e' = showBubble f s a x y (e\<lparr>lastUpdateMs := f_nowMs f\<rparr>)"
  then show ?thesis using showBubble_idle[of f "e\<lparr>lastUpdateMs := f_nowMs f\<rparr>" s a x y] assms(2)
    by simp
qed

lemma interval_values:
  "activeOverlapCheckInterval s
     = (if isMobileLike s then 120 else 36) * (if performanceLevel s = Low then 1.9 else 1)"
  by (simp add: activeOverlapCheckInterval_def Let_def)

subsection \<open>The kernel in explode mode\<close>

lemma vlength_scale: "vlength (vscale a k) = \<bar>k\<bar> * vlength a"
proof (cases a)
  case (fields x y z)
  have "(x * k) * (x * k) + (y * k) * (y * k) + (z * k) * (z * k) = k ^ 2 * (x * x + y * y + z * z)"
    by (simp add: power2_eq_square algebra_simps)
  then show ?thesis
    by (simp add: fields vlength_def vscale_def vdot_def real_sqrt_mult)
qed

lemma vlength_pos: "a \<noteq> (0, 0, 0) \<Longrightarrow> 0 < vlength a"
proof (cases a)
  case (fields x y z)
  assume "a \<noteq> (0, 0, 0)"
  then have "x \<noteq> 0 \<or> y \<noteq> 0 \<or> z \<noteq> 0" using fields by simp
  then have "0 < x * x \<or> 0 < y * y \<or> 0 < z * z"
    by (auto simp: zero_less_mult_iff)
  moreover have "0 \<le> x * x" "0 \<le> y * y" "0 \<le> z * z" by simp_all
  ultimately have "0 < x * x + y * y + z * z" by linarith
  then show ?thesis by (simp add: fields vlength_def vdot_def)
qed

lemma vlength_normalize: "a \<noteq> (0, 0, 0) \<Longrightarrow> vlength (normalizeVec a) = 1"
  using vlength_pos[of a] by (simp add: normalizeVec_def vlength_scale)

lemma glsl_smoothstep_eq: "e0 \<noteq> e1 \<Longrightarrow> glsl_smoothstep e0 e1 x = smoothstep e0 e1 x"
  by (simp add: glsl_smoothstep_def smoothstep_def glsl_clamp_def Let_def max_def min_def)

lemma smoothstep_nonneg: "0 \<le> smoothstep e0 e1 x"
proof -
  have "\<And>t::real. 0 \<le> t \<Longrightarrow> t \<le> 1 \<Longrightarrow> 0 \<le> t * t * (3 - 2 * t)" by simp
  then show ?thesis by (simp add: smoothstep_def Let_def)
qed

lemma tick_uniforms:
  assumes "customUniforms s = Some u0"
  shows "u_time (the (customUniforms (updateAnimationUniforms now s))) = (now - animationStartTime s) / 1000"
    and "u_mode (the (customUniforms (updateAnimationUniforms now s))) = animationModeToInt (animationMode s)"
    and "u_morph (the (customUniforms (updateAnimationUniforms now s)))
         = fst (morphClock (animationMode s) ((now - animationStartTime s) / 1000))"
    and "u_strength (the (customUniforms (updateAnimationUniforms now s)))
         = (if animationMode s = Mode ModeNone then 0
            else 0.35 + 0.65 * fst (morphClock (animationMode s) ((now - animationStartTime s) / 1000)))"
    and "u_radius (the (customUniforms (updateAnimationUniforms now s))) = max (sceneRadius s) 0.25"
  using assms by (simp_all add: updateAnimationUniforms_def Let_def case_prod_beta)

lemma explode_animated:
  assumes "u_mode u = 5"
  shows "animatedCenter u c i b = vadd (breakupCenter u c i b) (explodeTerm u c i b)"
  using assms by (simp add: animatedCenter_def Let_def split: prod.splits)

lemma explode_term_at_peak:
  assumes "u_radius u = 1" "sin (kernelPhase u i * 0.8) = 1"
  shows "explodeTerm u c i b
         = vscale (normalizeVec (vadd (vsub b c) (0.0001, 0.0001, 0.0001))) (kernelStrength u * 0.28)"
  using assms by (simp add: explodeTerm_def Let_def)

lemma kernelStrength_tick:
  assumes "u_strength u = 0.35 + 0.65 * u_morph u" "0 \<le> u_morph u" "u_morph u \<le> 1"
  shows "kernelStrength u = (0.35 + 0.65 * u_morph u) * u_morph u * smoothstep 0.12 0.35 (u_morph u)"
proof -
  have "kernelMorph u = u_morph u" using assms(2,3) by (simp add: kernelMorph_def glsl_clamp_def)
  then show ?thesis using assms(1) by (simp add: kernelStrength_def glsl_smoothstep_eq)
qed

lemma explode_displacement_main:
  assumes "customUniforms s = Some u0" "animationMode s = Mode Explode" "sceneRadius s = 1"
    and "u = the (customUniforms (updateAnimationUniforms now s))"
    and "sin (kernelPhase u i * 0.8) = 1"
    and "vadd (vsub b c) (0.0001, 0.0001, 0.0001) \<noteq> (0, 0, 0)"
    and "strength = (0.35 + 0.65 * u_morph u) * u_morph u * smoothstep 0.12 0.35 (u_morph u)"
  shows "animatedCenter u c i b
           = vadd (breakupCenter u c i b)
               (vscale (normalizeVec (vadd (vsub b c) (0.0001, 0.0001, 0.0001))) (1 * strength * 0.28))
       \<and> vlength (vscale (normalizeVec (vadd (vsub b c) (0.0001, 0.0001, 0.0001))) (1 * strength * 0.28))
           = strength * 0.28
       \<and> (max (sin (kernelPhase u i * 0.8)) 0) ^ 2 = 1"
proof -
  have m: "u_mode u = 5" "u_radius u = 1"
    using tick_uniforms(2,5)[OF assms(1), of now] assms(2,3,4) by simp_all
  have mo: "u_morph u = fst (morphClock (animationMode s) ((now - animationStartTime s) / 1000))"
    using tick_uniforms(3)[OF assms(1), of now] assms(4) by simp
  have st: "u_strength u = 0.35 + 0.65 * u_morph u"
    using tick_uniforms(4)[OF assms(1), of now] assms(2,4) mo by simp
  have r: "0 \<le> u_morph u" "u_morph u \<le> 1" unfolding mo using morphClock_range by blast+
  have ks: "kernelStrength u = strength" unfolding assms(7) by (rule kernelStrength_tick[OF st r])
  have nn: "0 \<le> strength" unfolding assms(7) using r smoothstep_nonneg[of "0.12" "0.35" "u_morph u"]
    by simp
  have a: "animatedCenter u c i b
           = vadd (breakupCenter u c i b)
               (vscale (normalizeVec (vadd (vsub b c) (0.0001, 0.0001, 0.0001))) (1 * strength * 0.28))"
    using explode_animated[OF m(1)] explode_term_at_peak[OF m(2) assms(5)] ks by simp
  have l: "vlength (vscale (normalizeVec (vadd (vsub b c) (0.0001, 0.0001, 0.0001))) (1 * strength * 0.28))
           = strength * 0.28"
    using vlength_normalize[OF assms(6)] nn by (simp add: vlength_scale)
  show ?thesis using a l assms(5) by simp
qed

subsection \<open>The sample inputs, evaluated\<close>

lemma sample_fields [simp]:
  "customUniforms (sampleViewer m) = Some \<lparr>u_time = 0, u_mode = 0, u_morph = 0,
                                u_colorGain = 1, u_strength = 1, u_radius = 1\<rparr>"
  "hasSplatMesh (sampleViewer m)"
  "animationMode (sampleViewer m) = m"
  "animationStartTime (sampleViewer m) = 0"
  "sceneRadius (sampleViewer m) = 1"
  "pointCloudEnabled (sampleViewer m) = False"
  by (simp_all add: sampleViewer_def newSplatViewer_def)


lemma spec_morph_half: "spec_morph 1.6 = 1"
  by (simp add: spec_morph_def spec_phase_def spec_easeInOutCubic_def Let_def power_divide eval_nat_numeral)

lemma clock_1200: "morphClock (Mode Swirl) 1.2 = (0.9375, True)"
  by (simp add: morphClock_def js_rem_def easeInOutCubic_def Let_def power3_eq_cube)

lemma clock_3100: "morphClock (Mode Swirl) 3.1 = (1 / 1024, False)"
  by (simp add: morphClock_def js_rem_def easeInOutCubic_def Let_def power3_eq_cube)

lemma kernelSeed_zero: "kernelSeed 0 = 0"
  by (simp add: kernelSeed_def fract_def)

lemma peak_phase: "sin (kernelPhase peakUniforms 0 * 0.8) = 1"
proof -
  have e: "kernelPhase peakUniforms 0 * 0.8 = pi / 2"
    by (simp add: kernelPhase_def kernelSeed_zero peakUniforms_def)
  show ?thesis unfolding e by simp
qed

lemma peak_strength: "kernelStrength peakUniforms = 1"
  by (simp add: kernelStrength_def kernelMorph_def glsl_clamp_def glsl_smoothstep_def
      peakUniforms_def Let_def)

lemma low_interval: "activeOverlapCheckInterval lowDesktopViewer = 68.4"
  by (simp add: activeOverlapCheckInterval_def lowDesktopViewer_def newSplatViewer_def Let_def)

lemma low_fields [simp]:
  "performanceLevel lowDesktopViewer = Low" "isMobileLike lowDesktopViewer = False"
  "activeTextBubble lowDesktopViewer = None"
  by (simp_all add: lowDesktopViewer_def newSplatViewer_def)

lemma opaque_covered:
  "isModelPixelCovered (Some opaqueGl) Low False 800 600 400 300 10 = True"
  by (simp add: isModelPixelCovered_def opaqueGl_def sampleOffsets_def readRenderAlpha_def
      js_round_def Let_def)

lemma sample_alpha: "0.02 < (0.56::real) * smoothstep 0 0.78 ((t - (- 1000)) / 4000)"
  if "t = 50 \<or> t = 70" for t :: real
  using that by (auto simp: smoothstep_def Let_def)


lemma sample_life: "\<not> 1 \<le> (t - (- 1000)) / (4000::real)" if "t = 50 \<or> t = 70" for t :: real
  using that by auto

lemma sample_probe_70:
  "probeWhenDue (sampleFrame 70 (Some opaqueGl)) lowDesktopViewer 400 300
     (sampleBubble\<lparr>lastUpdateMs := 70, screenX := 400, screenY := 300\<rparr>)
   = sampleBubble\<lparr>lastUpdateMs := 70, screenX := 400, screenY := 300,
                  overModel := True, lastOverlapCheckMs := 70\<rparr>"
  by (simp add: probeWhenDue_def low_interval sampleFrame_def sampleBubble_def
      getActiveNoOverlapSampleRadiusPx_def opaque_covered)

lemma sample_show_70:
  "showBubble (sampleFrame 70 (Some opaqueGl)) lowDesktopViewer a 0 0
     (sampleBubble\<lparr>lastUpdateMs := 70\<rparr>)
   = sampleBubble\<lparr>lastUpdateMs := 70, screenX := 400, screenY := 300,
                  overModel := True, lastOverlapCheckMs := 70\<rparr>"
proof -
  have w: "f_canvasWidth (sampleFrame 70 (Some opaqueGl)) = 800"
    "f_canvasHeight (sampleFrame 70 (Some opaqueGl)) = 600"
    by (simp_all add: sampleFrame_def)
  show ?thesis
    unfolding showBubble_def Let_def w
    by (simp add: sample_probe_70)
qed

lemma sample_update_70:
  "updateBubble (sampleFrame 70 (Some opaqueGl)) lowDesktopViewer sampleBubble
   = Some (sampleBubble\<lparr>lastUpdateMs := 70, screenX := 400, screenY := 300,
                        overModel := True, lastOverlapCheckMs := 70\<rparr>)"
proof -
  have f: "f_nowMs (sampleFrame 70 (Some opaqueGl)) = 70"
    "f_projection (sampleFrame 70 (Some opaqueGl)) = (\<lambda>b. (0, 0, 0))"
    by (simp_all add: sampleFrame_def)
  have b: "spawnMs sampleBubble = - 1000" "lifeMs sampleBubble = 4000"
    "maxAlpha (sampleBubble\<lparr>lastUpdateMs := 70\<rparr>) = 0.56"
    by (simp_all add: sampleBubble_def)
  show ?thesis
    unfolding updateBubble_def Let_def f b
    using sample_alpha[of 70] sample_life[of 70]
    by (simp add: sample_show_70)
qed

lemma sample_show_50:
  assumes "0.02 < a"
  shows "showBubble (sampleFrame 50 (Some opaqueGl)) lowDesktopViewer a 0 0
     (sampleBubble\<lparr>lastUpdateMs := 50\<rparr>)
   = sampleBubble\<lparr>lastUpdateMs := 50, screenX := 400, screenY := 300, isOpen := False\<rparr>"
proof -
  have w: "f_canvasWidth (sampleFrame 50 (Some opaqueGl)) = 800"
    "f_canvasHeight (sampleFrame 50 (Some opaqueGl)) = 600"
    "f_nowMs (sampleFrame 50 (Some opaqueGl)) = 50"
    by (simp_all add: sampleFrame_def)
  have p: "probeWhenDue (sampleFrame 50 (Some opaqueGl)) lowDesktopViewer 400 300
             (sampleBubble\<lparr>lastUpdateMs := 50, screenX := 400, screenY := 300\<rparr>)
           = sampleBubble\<lparr>lastUpdateMs := 50, screenX := 400, screenY := 300\<rparr>"
    by (simp add: probeWhenDue_def low_interval sampleFrame_def sampleBubble_def)
  have o: "\<not> overModel (sampleBubble\<lparr>lastUpdateMs := 50, screenX := 400, screenY := 300\<rparr>)"
    by (simp add: sampleBubble_def)
  have c: "closeWhenDue 50 lowDesktopViewer
             (sampleBubble\<lparr>lastUpdateMs := 50, screenX := 400, screenY := 300\<rparr>)
           = sampleBubble\<lparr>lastUpdateMs := 50, screenX := 400, screenY := 300, isOpen := False\<rparr>"
    by (simp add: closeWhenDue_def sampleBubble_def)
  have e: "smoothstep 56 (56 + 36) (min (min 400 (800 - 400)) (min 300 (600 - 300))) = 1"
    by (simp add: smoothstep_def)
  have "showBubble (sampleFrame 50 (Some opaqueGl)) lowDesktopViewer a 0 0
          (sampleBubble\<lparr>lastUpdateMs := 50\<rparr>)
        = (if overModel (sampleBubble\<lparr>lastUpdateMs := 50, screenX := 400, screenY := 300\<rparr>)
              \<or> a * smoothstep 56 (56 + 36) (min (min 400 (800 - 400)) (min 300 (600 - 300))) \<le> 0.02
           then sampleBubble\<lparr>lastUpdateMs := 50, screenX := 400, screenY := 300\<rparr>
           else closeWhenDue 50 lowDesktopViewer
                  (sampleBubble\<lparr>lastUpdateMs := 50, screenX := 400, screenY := 300\<rparr>))"
    unfolding showBubble_def Let_def w by (simp add: p)
  also have "\<dots> = sampleBubble\<lparr>lastUpdateMs := 50, screenX := 400, screenY := 300, isOpen := False\<rparr>"
    unfolding e c using o assms by simp
  finally show ?thesis .
qed

lemma sample_update_50:
  "updateBubble (sampleFrame 50 (Some opaqueGl)) lowDesktopViewer sampleBubble
   = Some (sampleBubble\<lparr>lastUpdateMs := 50, screenX := 400, screenY := 300, isOpen := False\<rparr>)"
proof -
  have f: "f_nowMs (sampleFrame 50 (Some opaqueGl)) = 50"
    "f_projection (sampleFrame 50 (Some opaqueGl)) = (\<lambda>b. (0, 0, 0))"
    by (simp_all add: sampleFrame_def)
  have b: "spawnMs sampleBubble = - 1000" "lifeMs sampleBubble = 4000"
    "maxAlpha (sampleBubble\<lparr>lastUpdateMs := 50\<rparr>) = 0.56"
    by (simp_all add: sampleBubble_def)
  show ?thesis
    unfolding updateBubble_def Let_def f b
    using sample_alpha[of 50] sample_life[of 50]
    by (simp add: sample_show_50)
qed

lemma throwing_fails: "probeFails (f_gl (sampleFrame now (Some throwingGl)))"
  by (simp add: probeFails_def sampleFrame_def throwingGl_def)

lemma session_fails: "list_all probeFailsIn (sampleSession (Some throwingGl))"
  by (simp add: sampleSession_def throwing_fails)

lemma tick_none: "customUniforms s = None \<Longrightarrow> updateAnimationUniforms now s = s"
  by (simp add: updateAnimationUniforms_def)

lemma session_state:
  "map bid (floatingBubbles activeSession) = [0] \<and> activeTextBubble activeSession = Some 0"
  by (simp add: activeSession_def sampleSession_def run_def loadBegin_def loadComplete_def
      newSplatViewer_def resetFloatingBubbles_def applyAnimationStyle_def tick_none
      setFloatingBubbles_def trim_def isWhiteSpace_def update_def updateFloatingBubbles_def
      sampleFrame_def getActiveMaxFloatingBubbles_def spawnFloatingBubble_def
      scheduleNextBubble_def updateBubble_def smoothstep_def closeWhenDue_def
      clickBubble_def activateTextBubble_def dissipatePrevious_def makeActive_def
      dissipateOthers_def dissipateBubble_def Let_def List.map_filter_def)

lemma session_draws: "list_all drawsInRange (sampleSession None @ [ClickBubble 0 500])"
  by (simp add: sampleSession_def sampleFrame_def unitDraw_def)


section \<open>The claims\<close>

text \<open>
  Claim C1. On every tick with the uniforms installed and a mode other than none, at a
  clock reading not before the start of the animation, the morph uniform is the eased
  triangle wave of the specification at the elapsed time \<open>t\<close>:
  \<open>phase = (t mod 3.2) / 3.2\<close>, \<open>triangle = phase * 2\<close> while \<open>phase < 0.5\<close> and
  \<open>(1 - phase) * 2\<close> after, eased by \<open>4x\<^sup>3\<close> below one half and \<open>1 - (-2x + 2)\<^sup>3 / 2\<close>
  from there. The morph has period 3.2 seconds, is 0 at 0 seconds and 1 at 1.6 seconds,
  and lies between 0 and 1.
\<close>

theorem morph_scalar:
  assumes "customUniforms s = Some u" "animationMode s \<noteq> Mode ModeNone"
    and "animationStartTime s \<le> now"
    and "t = (now - animationStartTime s) / 1000"
  shows "u_morph (the (customUniforms (updateAnimationUniforms now s))) = spec_morph t
       \<and> fst (morphClock (animationMode s) (t + 3.2)) = fst (morphClock (animationMode s) t)
       \<and> fst (morphClock (animationMode s) 0) = 0
       \<and> fst (morphClock (animationMode s) 1.6) = 1
       \<and> 0 \<le> u_morph (the (customUniforms (updateAnimationUniforms now s)))
       \<and> u_morph (the (customUniforms (updateAnimationUniforms now s))) \<le> 1"
proof -
  have t: "0 \<le> t" using assms(3,4) by simp
  have m: "u_morph (the (customUniforms (updateAnimationUniforms now s)))
           = fst (morphClock (animationMode s) t)"
    unfolding assms(4) by (rule tick_morph(2)[OF assms(1)])
  show ?thesis
    unfolding m
    using morphClock_spec[OF assms(2) t] morphClock_period[OF t, of "animationMode s"]
      morphClock_zero[OF assms(2)] morphClock_half[OF assms(2)]
      morphClock_range[of "animationMode s" t]
    by simp
qed

theorem morph_scalar_witness:
  "u_morph (the (customUniforms (updateAnimationUniforms 1600 (sampleViewer (Mode Swirl))))) = 1
   \<and> spec_morph 1.6 = 1"
proof -
  have a: "customUniforms (sampleViewer (Mode Swirl)) = Some \<lparr>u_time = 0, u_mode = 0, u_morph = 0,
                                u_colorGain = 1, u_strength = 1, u_radius = 1\<rparr>" by simp
  have b: "animationMode (sampleViewer (Mode Swirl)) \<noteq> Mode ModeNone" by simp
  have c: "animationStartTime (sampleViewer (Mode Swirl)) \<le> 1600" by simp
  have d: "(1.6::real) = (1600 - animationStartTime (sampleViewer (Mode Swirl))) / 1000" by simp
  from morph_scalar[OF a b c d] show ?thesis using spec_morph_half by simp
qed

text \<open>
  Claim C2. On every tick with the uniforms installed, a mesh present and a mode other
  than none: while dispersing with the morph at or above 0.38 the point cloud is
  enabled after the tick; while reassembling with the morph at or below 0.02 it is
  disabled; and while reassembling with the morph at or below 0.34, the reveal window,
  it is disabled whatever the exit threshold says.
\<close>

theorem render_mode_gate:
  assumes "customUniforms s = Some u" "hasSplatMesh s" "animationMode s \<noteq> Mode ModeNone"
    and "morphClock (animationMode s) ((now - animationStartTime s) / 1000) = (morph, dispersing)"
  shows "(dispersing \<and> 0.38 \<le> morph \<longrightarrow> pointCloudEnabled (updateAnimationUniforms now s))
       \<and> (\<not> dispersing \<and> morph \<le> 0.02 \<longrightarrow> \<not> pointCloudEnabled (updateAnimationUniforms now s))
       \<and> (\<not> dispersing \<and> morph \<le> 0.34 \<longrightarrow> \<not> pointCloudEnabled (updateAnimationUniforms now s))"
  using assms by (rule gate_rules)

theorem render_mode_gate_witness:
  "pointCloudEnabled (updateAnimationUniforms 1200 (sampleViewer (Mode Swirl)))
   \<and> \<not> pointCloudEnabled (updateAnimationUniforms 3100
          ((sampleViewer (Mode Swirl))\<lparr>pointCloudEnabled := True\<rparr>))"
proof -
  let ?s = "sampleViewer (Mode Swirl)"
  let ?u = "\<lparr>u_time = 0, u_mode = 0, u_morph = 0, u_colorGain = 1, u_strength = 1, u_radius = 1\<rparr>"
  have a: "customUniforms ?s = Some ?u" "hasSplatMesh ?s" "animationMode ?s \<noteq> Mode ModeNone"
    by simp_all
  have c1: "morphClock (animationMode ?s) ((1200 - animationStartTime ?s) / 1000) = (0.9375, True)"
    using clock_1200 by simp
  let ?s' = "?s\<lparr>pointCloudEnabled := True\<rparr>"
  have a': "customUniforms ?s' = Some ?u" "hasSplatMesh ?s'" "animationMode ?s' \<noteq> Mode ModeNone"
    by simp_all
  have c2: "morphClock (animationMode ?s') ((3100 - animationStartTime ?s') / 1000) = (1 / 1024, False)"
    using clock_3100 by simp
  from render_mode_gate[OF a c1] render_mode_gate[OF a' c2] show ?thesis by simp
qed

text \<open>
  Claim C3. Over one tick, whose time step \<open>dt\<close> is the clock difference clamped to
  between 0 and 0.05 seconds, the applied colour gain rises by at most \<open>0.35 * dt\<close> and
  falls by at most \<open>1.8 * dt\<close>.
\<close>

theorem color_gain_rate_limit:
  "colorGainApplied (updateAnimationUniforms now s) - colorGainApplied s
     \<le> 0.35 * clampDt now (lastUniformUpdateTimeMs s)
   \<and> colorGainApplied s - colorGainApplied (updateAnimationUniforms now s)
     \<le> 1.8 * clampDt now (lastUniformUpdateTimeMs s)
   \<and> 0 \<le> clampDt now (lastUniformUpdateTimeMs s)
   \<and> clampDt now (lastUniformUpdateTimeMs s) \<le> 0.05"
  using rate_limit[of now s] clampDt_range[of now "lastUniformUpdateTimeMs s"] by simp

theorem color_gain_rate_limit_witness:
  "colorGainApplied (updateAnimationUniforms 1216 ((sampleViewer (Mode Swirl))\<lparr>lastUniformUpdateTimeMs := 1200\<rparr>)) - 1
     \<le> 0.35 * 0.016
   \<and> 1 - colorGainApplied (updateAnimationUniforms 1216 ((sampleViewer (Mode Swirl))\<lparr>lastUniformUpdateTimeMs := 1200\<rparr>))
     \<le> 1.8 * 0.016"
proof -
  let ?s = "(sampleViewer (Mode Swirl))\<lparr>lastUniformUpdateTimeMs := 1200\<rparr>"
  have g: "colorGainApplied ?s = 1" by (simp add: sampleViewer_def newSplatViewer_def)
  have d: "clampDt 1216 (lastUniformUpdateTimeMs ?s) = 0.016" by (simp add: clampDt_def)
  from color_gain_rate_limit[of 1216 ?s] show ?thesis unfolding g d by simp
qed

text \<open>
  Claim C4, as amended. In explode mode with a scene radius of 1, at a time where
  \<open>sin (phase * 0.8) = 1\<close>, the kernel moves the centre from its place after the
  breakup offset along the normalized vector \<open>fromCenter + (0.0001, 0.0001, 0.0001)\<close>
  (not along the normalized \<open>fromCenter\<close> itself), by exactly \<open>burst * strength * 0.28\<close>,
  where \<open>burst = 1\<close> and
  \<open>strength = (0.35 + 0.65 * morph) * morph * smoothstep 0.12 0.35 morph\<close>, provided
  the shifted vector is not zero.
\<close>

theorem explode_displacement:
  assumes "customUniforms s = Some u0" "animationMode s = Mode Explode" "sceneRadius s = 1"
    and "u = the (customUniforms (updateAnimationUniforms now s))"
    and "sin (kernelPhase u i * 0.8) = 1"
    and "vadd (vsub b c) (0.0001, 0.0001, 0.0001) \<noteq> (0, 0, 0)"
    and "strength = (0.35 + 0.65 * u_morph u) * u_morph u * smoothstep 0.12 0.35 (u_morph u)"
  shows "animatedCenter u c i b
           = vadd (breakupCenter u c i b)
               (vscale (normalizeVec (vadd (vsub b c) (0.0001, 0.0001, 0.0001))) (1 * strength * 0.28))
       \<and> vlength (vscale (normalizeVec (vadd (vsub b c) (0.0001, 0.0001, 0.0001))) (1 * strength * 0.28))
           = strength * 0.28
       \<and> (max (sin (kernelPhase u i * 0.8)) 0) ^ 2 = 1"
  using assms by (rule explode_displacement_main)

theorem explode_displacement_witness:
  "vlength (vscale (normalizeVec (vadd (vsub (1, 0, 0) (0, 0, 0)) (0.0001, 0.0001, 0.0001)))
      (1 * ((0.35 + 0.65 * u_morph (the (customUniforms
               (updateAnimationUniforms (1000 * pi / 1.92) (sampleViewer (Mode Explode))))))
            * u_morph (the (customUniforms
               (updateAnimationUniforms (1000 * pi / 1.92) (sampleViewer (Mode Explode)))))
            * smoothstep 0.12 0.35 (u_morph (the (customUniforms
               (updateAnimationUniforms (1000 * pi / 1.92) (sampleViewer (Mode Explode)))))))
         * 0.28))
   = (0.35 + 0.65 * u_morph (the (customUniforms
               (updateAnimationUniforms (1000 * pi / 1.92) (sampleViewer (Mode Explode))))))
      * u_morph (the (customUniforms
               (updateAnimationUniforms (1000 * pi / 1.92) (sampleViewer (Mode Explode)))))
      * smoothstep 0.12 0.35 (u_morph (the (customUniforms
               (updateAnimationUniforms (1000 * pi / 1.92) (sampleViewer (Mode Explode))))))
      * 0.28"
proof -
  let ?s = "sampleViewer (Mode Explode)"
  let ?u = "the (customUniforms (updateAnimationUniforms (1000 * pi / 1.92) ?s))"
  have a: "customUniforms ?s = Some \<lparr>u_time = 0, u_mode = 0, u_morph = 0,
                                u_colorGain = 1, u_strength = 1, u_radius = 1\<rparr>"
    "animationMode ?s = Mode Explode" "sceneRadius ?s = 1" by simp_all
  have t: "u_time ?u = pi / 1.92"
    using tick_uniforms(1)[OF a(1), of "1000 * pi / 1.92"] by simp
  have e: "kernelPhase ?u 0 * 0.8 = pi / 2"
    unfolding kernelPhase_def t kernelSeed_zero by simp
  have p: "sin (kernelPhase ?u 0 * 0.8) = 1" unfolding e by simp
  have n: "vadd (vsub (1, 0, 0) (0, 0, 0)) (0.0001, 0.0001, 0.0001) \<noteq> (0, 0, 0)"
    by (simp add: vadd_def vsub_def)
  from explode_displacement[OF a refl p n refl] show ?thesis by blast
qed

text \<open>
  The claim C4 as the specification states it, with the direction \<open>normalize fromCenter\<close>,
  fails for the splat with index 0 at \<open>(1, 0, 0)\<close> around the origin: the direction of
  the kernel has a component along the second axis.
\<close>

theorem explode_direction_counterexample:
  "explodeTerm peakUniforms (0, 0, 0) 0 (1, 0, 0)
   \<noteq> vscale (normalizeVec (vsub (1, 0, 0) (0, 0, 0)))
       ((max (sin (kernelPhase peakUniforms 0 * 0.8)) 0) ^ 2 * kernelStrength peakUniforms * 0.28)"
proof
  assume h: "explodeTerm peakUniforms (0, 0, 0) 0 (1, 0, 0)
   = vscale (normalizeVec (vsub (1, 0, 0) (0, 0, 0)))
       ((max (sin (kernelPhase peakUniforms 0 * 0.8)) 0) ^ 2 * kernelStrength peakUniforms * 0.28)"
  define L where "L = vlength (1.0001, 0.0001, 0.0001)"
  have L: "0 < L" unfolding L_def by (rule vlength_pos) simp
  have ur: "u_radius peakUniforms = 1" by (simp add: peakUniforms_def)
  have lhs: "explodeTerm peakUniforms (0, 0, 0) 0 (1, 0, 0)
             = vscale (normalizeVec (1.0001, 0.0001, 0.0001)) 0.28"
    using explode_term_at_peak[OF ur peak_phase, of "(0,0,0)" "(1,0,0)"]
    by (simp add: peak_strength vsub_def vadd_def)
  have rhs: "vscale (normalizeVec (vsub (1, 0, 0) (0, 0, 0)))
       ((max (sin (kernelPhase peakUniforms 0 * 0.8)) 0) ^ 2 * kernelStrength peakUniforms * 0.28)
        = (0.28, 0, 0)"
    unfolding peak_phase peak_strength
    by (simp add: vsub_def normalizeVec_def vlength_def vdot_def vscale_def)
  have "fst (snd (vscale (normalizeVec (1.0001, 0.0001, 0.0001)) 0.28)) = 0.0001 * (1 / L) * 0.28"
    by (simp add: normalizeVec_def vscale_def L_def)
  moreover have "fst (snd (vscale (normalizeVec (1.0001, 0.0001, 0.0001)) 0.28)) = 0"
    using h unfolding lhs rhs by simp
  ultimately show False using L by simp
qed

text \<open>
  Claim C5. In every state a viewer can reach (with the draws of \<^verbatim>\<open>Math.random\<close> in
  their range), at most one marker of the list is the active one, and only the active
  marker is open. When a marker \<open>b\<close> is activated while another marker \<open>a\<close> is active,
  then after the first statement of \<^verbatim>\<open>activateTextBubble\<close> no marker is active and \<open>a\<close>
  is closed and dissipating (its life is over, so the next tick removes it); only then
  does \<open>b\<close> become the active marker, and at the end of the call \<open>b\<close> is active and \<open>a\<close>
  is still dissipating.
\<close>

theorem single_active_marker:
  assumes "list_all drawsInRange evs" and "s = run (newSplatViewer mobile t1 t2) evs"
  shows "length (filter (markerActive s) (floatingBubbles s)) \<le> 1
       \<and> (\<forall>e\<in>set (floatingBubbles s). isOpen e \<longrightarrow> markerActive s e)
       \<and> (activeTextBubble s = Some a \<and> a \<noteq> b \<longrightarrow>
            activeTextBubble (dissipatePrevious b now s) = None
          \<and> (\<forall>e\<in>set (floatingBubbles (dissipatePrevious b now s)).
                bid e = a \<longrightarrow> dissipating now e \<and> \<not> isOpen e)
          \<and> activeTextBubble (makeActive b (dissipatePrevious b now s)) = Some b
          \<and> activeTextBubble (activateTextBubble b now s) = Some b
          \<and> (\<forall>e\<in>set (floatingBubbles (activateTextBubble b now s)).
                bid e = a \<longrightarrow> dissipating now e))"
proof -
  have i: "idsOk s" unfolding assms(2) by (rule run_inv) (rule new_inv)
  have o: "openOk s" unfolding assms(2) by (rule run_inv) (rule new_inv)
  have l: "livesOk s" unfolding assms(2) by (rule run_lives) (rule new_inv, rule assms(1))
  have one: "length (filter (markerActive s) (floatingBubbles s)) \<le> 1"
  proof (cases "activeTextBubble s")
    case None
    then show ?thesis by (simp add: markerActive_def)
  next
    case (Some x)
    then have "filter (markerActive s) (floatingBubbles s)
               = filter (\<lambda>e. bid e = x) (floatingBubbles s)"
      by (auto simp: markerActive_def intro: filter_cong)
    then show ?thesis using filter_bid_once[of "floatingBubbles s" x] i by (simp add: idsOk_def)
  qed
  have opn: "\<forall>e\<in>set (floatingBubbles s). isOpen e \<longrightarrow> markerActive s e"
    using o by (simp add: openOk_def markerActive_def)
  have act: "activeTextBubble s = Some a \<and> a \<noteq> b \<longrightarrow>
            activeTextBubble (dissipatePrevious b now s) = None
          \<and> (\<forall>e\<in>set (floatingBubbles (dissipatePrevious b now s)).
                bid e = a \<longrightarrow> dissipating now e \<and> \<not> isOpen e)
          \<and> activeTextBubble (makeActive b (dissipatePrevious b now s)) = Some b
          \<and> activeTextBubble (activateTextBubble b now s) = Some b
          \<and> (\<forall>e\<in>set (floatingBubbles (activateTextBubble b now s)).
                bid e = a \<longrightarrow> dissipating now e)"
  proof (rule impI)
    assume h: "activeTextBubble s = Some a \<and> a \<noteq> b"
    then have h1: "activeTextBubble s = Some a" and h2: "a \<noteq> b" by blast+
    show "activeTextBubble (dissipatePrevious b now s) = None
          \<and> (\<forall>e\<in>set (floatingBubbles (dissipatePrevious b now s)).
                bid e = a \<longrightarrow> dissipating now e \<and> \<not> isOpen e)
          \<and> activeTextBubble (makeActive b (dissipatePrevious b now s)) = Some b
          \<and> activeTextBubble (activateTextBubble b now s) = Some b
          \<and> (\<forall>e\<in>set (floatingBubbles (activateTextBubble b now s)).
                bid e = a \<longrightarrow> dissipating now e)"
      using dissipatePrevious_effect[OF h1 h2 l, of now] activate_effect[OF h1 h2 l o, of now]
        makeActive_inv(6)[of b "dissipatePrevious b now s"]
      by (intro conjI)
  qed
  from one opn act show ?thesis by (intro conjI)
qed

theorem single_active_marker_witness:
  "map bid (floatingBubbles activeSession) = [0]
   \<and> activeTextBubble activeSession = Some 0
   \<and> activeTextBubble (dissipatePrevious 1 600 activeSession) = None
   \<and> activeTextBubble (makeActive 1 (dissipatePrevious 1 600 activeSession)) = Some 1
   \<and> activeTextBubble (activateTextBubble 1 600 activeSession) = Some 1
   \<and> length (filter (markerActive activeSession) (floatingBubbles activeSession)) \<le> 1"
proof -
  have a: "activeTextBubble activeSession = Some 0 \<and> (0::nat) \<noteq> 1" using session_state by simp
  from single_active_marker[OF session_draws activeSession_def, of 0 1 600] a session_state
  show ?thesis by blast
qed

text \<open>
  Claim C6. In every state a viewer can reach, so after every spawn with its eviction
  and after every change of the performance level, the number of markers is at most
  the capacity of the current tier and device class: 18 on a desktop and 11 on a
  mobile device on the high tier, 12 and 7 on the low tier.
\<close>

theorem marker_capacity:
  "length (floatingBubbles (run (newSplatViewer mobile t1 t2) evs))
     \<le> getActiveMaxFloatingBubbles (run (newSplatViewer mobile t1 t2) evs)
   \<and> getActiveMaxFloatingBubbles (run (newSplatViewer mobile t1 t2) evs)
     = (if performanceLevel (run (newSplatViewer mobile t1 t2) evs) = Low
        then (if isMobileLike (run (newSplatViewer mobile t1 t2) evs) then 7 else 12)
        else (if isMobileLike (run (newSplatViewer mobile t1 t2) evs) then 11 else 18))"
proof -
  have "capOk (run (newSplatViewer mobile t1 t2) evs)"
    by (rule run_inv) (rule new_inv)
  then show ?thesis by (simp add: capOk_def getActiveMaxFloatingBubbles_def)
qed

text \<open>
  Claim C7. When the drawing context is unavailable or every read of a pixel throws,
  the occlusion test answers that the pixel is not covered, for every marker and
  sample position; a probe that is due leaves \<open>overModel\<close> false; and in a session whose
  frames all have such a context no marker ever reports \<open>overModel\<close>. The test is a total
  function into the booleans: the one operation that can throw is caught.
\<close>

theorem occlusion_fail_open:
  assumes "probeFails (f_gl f)" "list_all probeFailsIn evs"
  shows "isModelPixelCovered (f_gl f) level mobile w h sx sy r = False
       \<and> (activeOverlapCheckInterval s \<le> f_nowMs f - lastOverlapCheckMs e
            \<longrightarrow> \<not> overModel (probeWhenDue f s px py e))
       \<and> (\<forall>e\<in>set (floatingBubbles (run (newSplatViewer mobile' t1 t2) evs)). \<not> overModel e)"
proof -
  have a: "isModelPixelCovered (f_gl f) level mobile w h sx sy r = False"
    by (rule covered_fails) (rule assms(1))
  have b: "activeOverlapCheckInterval s \<le> f_nowMs f - lastOverlapCheckMs e
            \<longrightarrow> \<not> overModel (probeWhenDue f s px py e)"
    by (simp add: probeWhenDue_def covered_fails[OF assms(1)])
  have "clearOk (run (newSplatViewer mobile' t1 t2) evs)"
    by (rule run_clear) (rule new_inv, rule assms(2))
  then have c: "\<forall>e\<in>set (floatingBubbles (run (newSplatViewer mobile' t1 t2) evs)). \<not> overModel e"
    by (simp add: clearOk_def)
  from a b c show ?thesis by (intro conjI)
qed

theorem occlusion_fail_open_witness:
  "isModelPixelCovered (Some throwingGl) High False 800 600 400 300 14 = False
   \<and> probeFails (Some throwingGl)"
proof -
  have g: "f_gl (sampleFrame 400 (Some throwingGl)) = Some throwingGl"
    by (simp add: sampleFrame_def)
  from occlusion_fail_open[OF throwing_fails session_fails, of 400 High False 800 600 400 300 14]
  show ?thesis using throwing_fails[of 400] unfolding g by blast
qed

text \<open>
  Claim C8, where the code departs from it. \<^verbatim>\<open>setAnimation("constructor")\<close> does not
  leave the mode none: the name is not a key of the alias table, but the object literal
  inherits a member of that name, which is truthy, so the fallback is not taken.
\<close>

theorem setAnimation_inherited_member:
  "animationMode (setAnimation ''constructor'' now1 now2 now3 s) = Inherited ''constructor''
   \<and> animationMode (setAnimation ''constructor'' now1 now2 now3 s) \<noteq> Mode ModeNone
   \<and> map_of animationModeTable (normalizeModeName ''constructor'') = None"
  by (simp add: normalize_constructor lookup_constructor) code_simp




text \<open>
  Claim C10, as amended. The interval between two probes of a marker is 36 ms on a
  desktop and 120 ms on a mobile device, multiplied by 1.9 (not doubled) on the low
  tier. A marker that the loop keeps, and whose last probe is less than the interval
  ago, keeps its cached \<open>overModel\<close> and the time of its last probe; these change only
  when the interval has passed.
\<close>

theorem probe_throttle_interval:
  assumes "updateBubble f s e = Some e'"
  shows "activeOverlapCheckInterval s
           = (if isMobileLike s then 120 else 36) * (if performanceLevel s = Low then 1.9 else 1)
       \<and> (f_nowMs f - lastOverlapCheckMs e < activeOverlapCheckInterval s
            \<longrightarrow> overModel e' = overModel e \<and> lastOverlapCheckMs e' = lastOverlapCheckMs e)
       \<and> (lastOverlapCheckMs e' \<noteq> lastOverlapCheckMs e \<or> overModel e' \<noteq> overModel e
            \<longrightarrow> activeOverlapCheckInterval s \<le> f_nowMs f - lastOverlapCheckMs e)"
proof -
  have a: "activeOverlapCheckInterval s
           = (if isMobileLike s then 120 else 36) * (if performanceLevel s = Low then 1.9 else 1)"
    by (rule interval_values)
  have b: "f_nowMs f - lastOverlapCheckMs e < activeOverlapCheckInterval s
            \<longrightarrow> overModel e' = overModel e \<and> lastOverlapCheckMs e' = lastOverlapCheckMs e"
    using probe_throttle[OF assms] by blast
  have c: "lastOverlapCheckMs e' \<noteq> lastOverlapCheckMs e \<or> overModel e' \<noteq> overModel e
            \<longrightarrow> activeOverlapCheckInterval s \<le> f_nowMs f - lastOverlapCheckMs e"
  proof (rule impI, rule ccontr)
    assume ch: "lastOverlapCheckMs e' \<noteq> lastOverlapCheckMs e \<or> overModel e' \<noteq> overModel e"
      and "\<not> activeOverlapCheckInterval s \<le> f_nowMs f - lastOverlapCheckMs e"
    then have "f_nowMs f - lastOverlapCheckMs e < activeOverlapCheckInterval s" by simp
    with b ch show False by blast
  qed
  from a b c show ?thesis by (intro conjI)
qed

theorem probe_throttle_interval_witness:
  "activeOverlapCheckInterval lowDesktopViewer = 68.4
   \<and> f_nowMs (sampleFrame 50 (Some opaqueGl)) - lastOverlapCheckMs sampleBubble
       < activeOverlapCheckInterval lowDesktopViewer
   \<and> overModel (sampleBubble\<lparr>lastUpdateMs := 50, screenX := 400, screenY := 300, isOpen := False\<rparr>)
       = overModel sampleBubble"
proof -
  have d: "f_nowMs (sampleFrame 50 (Some opaqueGl)) - lastOverlapCheckMs sampleBubble
       < activeOverlapCheckInterval lowDesktopViewer"
    by (simp add: low_interval sampleFrame_def sampleBubble_def)
  from probe_throttle_interval[OF sample_update_50] d show ?thesis by simp
qed

text \<open>
  The claim C10 as the specification states it, with the doubled interval, fails on a
  desktop on the low tier: 70 ms after its last probe, inside the doubled interval of
  72 ms, a visible marker is probed again and its \<open>overModel\<close> changes.
\<close>

theorem probe_interval_counterexample:
  "f_nowMs (sampleFrame 70 (Some opaqueGl)) - lastOverlapCheckMs sampleBubble
     < spec_overlapCheckInterval lowDesktopViewer
   \<and> map_option overModel
         (updateBubble (sampleFrame 70 (Some opaqueGl)) lowDesktopViewer sampleBubble) = Some True
   \<and> overModel sampleBubble = False
   \<and> map_option lastOverlapCheckMs
         (updateBubble (sampleFrame 70 (Some opaqueGl)) lowDesktopViewer sampleBubble) = Some 70
   \<and> lastOverlapCheckMs sampleBubble = 0"
  unfolding sample_update_70
  by (simp add: sampleFrame_def sampleBubble_def spec_overlapCheckInterval_def)

end
